theory Spec2Isabelle
  imports Main "HOL-Library.Sublist"
begin

section \<open>Checkout of the Reina Shop storefront\<close>

text \<open>
  A shallow embedding of the checkout component (\<^verbatim>\<open>Checkout\<close>): its state, its
  storage mirroring, the bulk input fan-out, the order message composer and the two
  submission handlers. JavaScript strings are modelled as \<^typ>\<open>string\<close>; the
  characters of the message template outside ASCII are written as their UTF-8 bytes.
  A value of type \<^verbatim>\<open>string | null\<close> is a \<^typ>\<open>string option\<close>, an object
  used as a dictionary is a map, and every exception the source can raise is a value
  of \<open>js_error\<close>. The definitions come first, the theorems after them.
\<close>

subsection \<open>Strings\<close>

text \<open>
  \<^verbatim>\<open>String.prototype.split\<close> with a non-empty separator scans from the left and cuts
  at every non-overlapping occurrence. \<open>js_split sep acc s\<close> carries the part read so
  far in \<open>acc\<close>.
\<close>

function js_split :: "string \<Rightarrow> string \<Rightarrow> string \<Rightarrow> string list" where
  "js_split sep acc [] = [acc]"
| "js_split sep acc (c # cs) =
     (if sep \<noteq> [] \<and> prefix sep (c # cs)
      then acc # js_split sep [] (drop (length sep) (c # cs))
      else js_split sep (acc @ [c]) cs)"
  by pat_completeness auto
termination
  by (relation "measure (\<lambda>(sep, acc, s). length s)") (auto simp: neq_Nil_conv)

definition split_str :: "string \<Rightarrow> string \<Rightarrow> string list" where
  "split_str s sep = (if sep = [] then map (\<lambda>c. [c]) s else js_split sep [] s)"

definition CART_SEP :: string where
  "CART_SEP = '':::CART:::''"

text \<open>
  \<^verbatim>\<open>const parts = cartItemId.split(':::CART:::');
  return parts.length > 1 ? parts[0] : cartItemId;\<close>
\<close>

definition getOriginalMenuItemId :: "string \<Rightarrow> string" where
  "getOriginalMenuItemId cartItemId =
     (let parts = split_str cartItemId CART_SEP
      in if length parts > 1 then parts ! 0 else cartItemId)"

text \<open>\<open>occurs_in sep s\<close>: the separator stands somewhere in \<open>s\<close>.\<close>

definition occurs_in :: "string \<Rightarrow> string \<Rightarrow> bool" where
  "occurs_in sep s = (\<exists>p q. s = p @ sep @ q)"

text \<open>Other string functions of the JavaScript library the component calls.\<close>

definition join_str :: "string \<Rightarrow> string list \<Rightarrow> string" where
  "join_str sep xs = (case xs of [] \<Rightarrow> [] | y # ys \<Rightarrow> foldl (\<lambda>acc x. acc @ sep @ x) y ys)"

text \<open>
  White space as \<^verbatim>\<open>trim\<close> and \<^verbatim>\<open>parseInt\<close> skip it: tab, line feed, vertical tab,
  form feed, carriage return and space. (The white space characters outside ASCII are
  not modelled.)
\<close>

definition is_ws :: "char \<Rightarrow> bool" where
  "is_ws c = (c \<in> set [CHR 0x09, CHR 0x0A, CHR 0x0B, CHR 0x0C, CHR 0x0D, CHR 0x20])"

definition trim :: "string \<Rightarrow> string" where
  "trim s = rev (dropWhile is_ws (rev (dropWhile is_ws s)))"

text \<open>\<^verbatim>\<open>s.lastIndexOf(c)\<close>: the last position of \<open>c\<close>, or \<open>-1\<close>.\<close>

definition lastIndexOf :: "string \<Rightarrow> char \<Rightarrow> int" where
  "lastIndexOf s c =
     (case find (\<lambda>i. s ! i = c) (rev [0..<length s]) of None \<Rightarrow> - 1 | Some i \<Rightarrow> int i)"

text \<open>\<^verbatim>\<open>s.includes(t)\<close>, used to state what a composed message contains.\<close>

primrec includes_str :: "string \<Rightarrow> string \<Rightarrow> bool" where
  "includes_str [] t = (t = [])"
| "includes_str (c # cs) t = (prefix t (c # cs) \<or> includes_str cs t)"

text \<open>Numbers in template strings: the decimal digits of an integer.\<close>

definition digit_char :: "nat \<Rightarrow> char" where
  "digit_char d = ''0123456789'' ! d"

fun show_nat :: "nat \<Rightarrow> string" where
  "show_nat n = (if n < 10 then [digit_char n] else show_nat (n div 10) @ [digit_char (n mod 10)])"

declare show_nat.simps [simp del]

definition show_int :: "int \<Rightarrow> string" where
  "show_int i = (if i < 0 then CHR ''-'' # show_nat (nat (- i)) else show_nat (nat i))"

text \<open>
  \<^verbatim>\<open>parseInt(s, 10)\<close>: leading white space and one sign are skipped, then the longest
  run of decimal digits is read; no digit gives \<^verbatim>\<open>NaN\<close>, here \<open>None\<close>. The result is
  the mathematical integer (the rounding of a double beyond \<open>2^53\<close> is not modelled).
\<close>

definition is_digit :: "char \<Rightarrow> bool" where
  "is_digit c = (c \<in> set ''0123456789'')"

definition digit_val :: "char \<Rightarrow> nat" where
  "digit_val c = of_char c - 48"

definition digits_val :: "string \<Rightarrow> nat" where
  "digits_val ds = foldl (\<lambda>acc c. 10 * acc + digit_val c) 0 ds"

definition parseInt :: "string \<Rightarrow> int option" where
  "parseInt s =
     (let t = dropWhile is_ws s;
          neg = (t \<noteq> [] \<and> hd t = CHR ''-'');
          u = (if t \<noteq> [] \<and> (hd t = CHR ''-'' \<or> hd t = CHR ''+'') then tl t else t);
          ds = takeWhile is_digit u
      in if ds = [] then None
         else Some ((if neg then - 1 else 1) * int (digits_val ds)))"

text \<open>Truthiness of a \<^verbatim>\<open>string | null | undefined\<close> value.\<close>

definition truthy :: "string option \<Rightarrow> bool" where
  "truthy v = (case v of None \<Rightarrow> False | Some s \<Rightarrow> s \<noteq> [])"

text \<open>\<^verbatim>\<open>v || ''\<close>\<close>

definition or_empty :: "string option \<Rightarrow> string" where
  "or_empty v = (case v of None \<Rightarrow> [] | Some s \<Rightarrow> s)"

text \<open>\<^verbatim>\<open>xs.findIndex(P)\<close>: the first position where \<open>P\<close> holds, or \<open>-1\<close>.\<close>

fun findIndex :: "('a \<Rightarrow> bool) \<Rightarrow> 'a list \<Rightarrow> int" where
  "findIndex P [] = - 1"
| "findIndex P (x # xs) =
     (if P x then 0 else (let r = findIndex P xs in if r = - 1 then - 1 else r + 1))"

subsection \<open>Data model\<close>

text \<open>
  The types of \<^verbatim>\<open>../types\<close> as the component reads them. A field named
  \<^verbatim>\<open>id\<close>, \<^verbatim>\<open>name\<close>, \<^verbatim>\<open>key\<close>, \<^verbatim>\<open>label\<close> or \<^verbatim>\<open>status\<close> in the source carries the name of
  its type in front, since several types share these names. Amounts are whole numbers.
\<close>

record CustomField =
  field_key :: string
  field_label :: string
  placeholder :: string
  required :: bool

record Variation =
  variation_name :: string

record CartItem =
  item_id :: string
  item_name :: string
  quantity :: int
  totalPrice :: int
  selectedVariation :: "Variation option"
  customFields :: "CustomField list option"

record PaymentMethod =
  uuid_id :: string
  method_name :: string
  account_number :: string
  account_name :: string
  qr_code_url :: "string option"
  icon_url :: "string option"

record Order =
  order_id :: string
  order_status :: string

datatype js_error = SecurityError | SyntaxError | RequestFailed

text \<open>
  \<^verbatim>\<open>localStorage\<close>: a string-keyed store of strings, or a store the browser refuses
  access to, where every call throws. (A full store, where only writing throws, is not
  modelled.)
\<close>

datatype localStorage = Blocked | Items "string \<rightharpoonup> string"

definition getItem :: "localStorage \<Rightarrow> string \<Rightarrow> js_error + string option" where
  "getItem st k = (case st of Blocked \<Rightarrow> Inl SecurityError | Items m \<Rightarrow> Inr (m k))"

definition setItem :: "localStorage \<Rightarrow> string \<Rightarrow> string \<Rightarrow> js_error + localStorage" where
  "setItem st k v =
     (case st of Blocked \<Rightarrow> Inl SecurityError | Items m \<Rightarrow> Inr (Items (m(k \<mapsto> v))))"

definition removeItem :: "localStorage \<Rightarrow> string \<Rightarrow> js_error + localStorage" where
  "removeItem st k =
     (case st of Blocked \<Rightarrow> Inl SecurityError | Items m \<Rightarrow> Inr (Items (m(k := None))))"

text \<open>The storage keys (\<^verbatim>\<open>CHECKOUT_STORAGE_KEYS\<close> and \<^verbatim>\<open>'current_order_id'\<close>).\<close>

definition KEY_paymentMethodUuid :: string where
  "KEY_paymentMethodUuid = ''reina_checkout_paymentMethodUuid''"

definition KEY_customFieldValues :: string where
  "KEY_customFieldValues = ''reina_checkout_customFieldValues''"

definition KEY_receiptImageUrl :: string where
  "KEY_receiptImageUrl = ''reina_checkout_receiptImageUrl''"

definition KEY_receiptPreview :: string where
  "KEY_receiptPreview = ''reina_checkout_receiptPreview''"

definition KEY_bulkInputValues :: string where
  "KEY_bulkInputValues = ''reina_checkout_bulkInputValues''"

definition KEY_bulkSelectedGames :: string where
  "KEY_bulkSelectedGames = ''reina_checkout_bulkSelectedGames''"

definition KEY_current_order_id :: string where
  "KEY_current_order_id = ''current_order_id''"

text \<open>
  \<^verbatim>\<open>JSON.stringify\<close> and \<^verbatim>\<open>JSON.parse\<close> belong to the browser; they are parameters,
  one pair for each type the component stores. A parse that throws returns \<open>Inl\<close>.
\<close>

record JSON =
  stringify_values :: "(string \<rightharpoonup> string) \<Rightarrow> string"
  parse_values :: "string \<Rightarrow> js_error + (string \<rightharpoonup> string)"
  stringify_entries :: "(string \<times> string) list \<Rightarrow> string"
  parse_entries :: "string \<Rightarrow> js_error + (string \<times> string) list"
  stringify_ids :: "string list \<Rightarrow> string"
  parse_ids :: "string \<Rightarrow> js_error + string list"

text \<open>
  The component's state, one field for each \<^verbatim>\<open>useState\<close>. \<open>bulkInputValues\<close>
  is kept as the list of its entries, the list \<^verbatim>\<open>Object.entries\<close> walks;
  \<open>receiptFile\<close> holds the name of the chosen file.
\<close>

record checkout =
  paymentMethodUuid :: "string option"
  showPaymentDetailsModal :: bool
  customFieldValues :: "string \<rightharpoonup> string"
  receiptFile :: "string option"
  receiptImageUrl :: "string option"
  receiptPreview :: "string option"
  receiptError :: "string option"
  copied :: bool
  hasCopiedMessage :: bool
  copiedAccountNumber :: bool
  copiedAccountName :: bool
  bulkInputValues :: "(string \<times> string) list"
  bulkSelectedGames :: "string list"
  orderId :: "string option"
  isOrderModalOpen :: bool
  isPlacingOrder :: bool
  existingOrderStatus :: "string option"
  isCheckingExistingOrder :: bool

subsection \<open>Initial state and persistence\<close>

text \<open>
  The \<^verbatim>\<open>useState\<close> initialisers. Four of them wrap the read in \<^verbatim>\<open>try/catch\<close>:
  \<^verbatim>\<open>try { const saved = localStorage.getItem(K); return saved ? JSON.parse(saved) : {}; }
  catch { return {}; }\<close>
  The two receipt initialisers read the store with no \<^verbatim>\<open>try\<close> around the call.
\<close>

definition init_paymentMethodUuid :: "localStorage \<Rightarrow> js_error + string option" where
  "init_paymentMethodUuid st =
     (case getItem st KEY_paymentMethodUuid of Inl e \<Rightarrow> Inr None | Inr v \<Rightarrow> Inr v)"

definition init_parsed ::
  "(string \<Rightarrow> js_error + 'a) \<Rightarrow> 'a \<Rightarrow> localStorage \<Rightarrow> string \<Rightarrow> js_error + 'a" where
  "init_parsed parse dflt st k =
     (case getItem st k of
        Inl e \<Rightarrow> Inr dflt
      | Inr saved \<Rightarrow>
          if truthy saved
          then (case parse (the saved) of Inl e \<Rightarrow> Inr dflt | Inr v \<Rightarrow> Inr v)
          else Inr dflt)"

definition init_customFieldValues :: "JSON \<Rightarrow> localStorage \<Rightarrow> js_error + (string \<rightharpoonup> string)" where
  "init_customFieldValues J st = init_parsed (parse_values J) Map.empty st KEY_customFieldValues"

definition init_receiptImageUrl :: "localStorage \<Rightarrow> js_error + string option" where
  "init_receiptImageUrl st = getItem st KEY_receiptImageUrl"

definition init_receiptPreview :: "localStorage \<Rightarrow> js_error + string option" where
  "init_receiptPreview st = getItem st KEY_receiptPreview"

definition init_bulkInputValues :: "JSON \<Rightarrow> localStorage \<Rightarrow> js_error + (string \<times> string) list" where
  "init_bulkInputValues J st = init_parsed (parse_entries J) [] st KEY_bulkInputValues"

definition init_bulkSelectedGames :: "JSON \<Rightarrow> localStorage \<Rightarrow> js_error + string list" where
  "init_bulkSelectedGames J st = init_parsed (parse_ids J) [] st KEY_bulkSelectedGames"

text \<open>Sequencing of calls that may throw: the first \<open>Inl\<close> ends the run.\<close>

definition bind_err :: "js_error + 'a \<Rightarrow> ('a \<Rightarrow> js_error + 'b) \<Rightarrow> js_error + 'b" where
  "bind_err r f = (case r of Inl e \<Rightarrow> Inl e | Inr v \<Rightarrow> f v)"

text \<open>The first render: the initialisers run in the order of their \<^verbatim>\<open>useState\<close> calls.\<close>

definition initial_state :: "JSON \<Rightarrow> localStorage \<Rightarrow> js_error + checkout" where
  "initial_state J st =
     bind_err (init_paymentMethodUuid st) (\<lambda>pm.
     bind_err (init_customFieldValues J st) (\<lambda>cfv.
     bind_err (init_receiptImageUrl st) (\<lambda>url.
     bind_err (init_receiptPreview st) (\<lambda>preview.
     bind_err (init_bulkInputValues J st) (\<lambda>bulk.
     bind_err (init_bulkSelectedGames J st) (\<lambda>games.
       Inr \<lparr> paymentMethodUuid = pm, showPaymentDetailsModal = False,
             customFieldValues = cfv, receiptFile = None, receiptImageUrl = url,
             receiptPreview = preview, receiptError = None, copied = False,
             hasCopiedMessage = False, copiedAccountNumber = False,
             copiedAccountName = False, bulkInputValues = bulk,
             bulkSelectedGames = games, orderId = None, isOrderModalOpen = False,
             isPlacingOrder = False, existingOrderStatus = None,
             isCheckingExistingOrder = True \<rparr>))))))"

text \<open>
  The persistence effects, in source order:
  \<^verbatim>\<open>if (v) localStorage.setItem(K, v); else localStorage.removeItem(K);\<close> for the three
  plain strings, \<^verbatim>\<open>localStorage.setItem(K, JSON.stringify(v))\<close> for the three objects.
\<close>

definition persist_string :: "string \<Rightarrow> string option \<Rightarrow> localStorage \<Rightarrow> js_error + localStorage" where
  "persist_string k v st = (if truthy v then setItem st k (the v) else removeItem st k)"

definition persist :: "JSON \<Rightarrow> checkout \<Rightarrow> localStorage \<Rightarrow> js_error + localStorage" where
  "persist J s st =
     bind_err (setItem st KEY_customFieldValues (stringify_values J (customFieldValues s))) (\<lambda>st1.
     bind_err (persist_string KEY_receiptImageUrl (receiptImageUrl s) st1) (\<lambda>st2.
     bind_err (persist_string KEY_receiptPreview (receiptPreview s) st2) (\<lambda>st3.
     bind_err (setItem st3 KEY_bulkInputValues (stringify_entries J (bulkInputValues s))) (\<lambda>st4.
     bind_err (setItem st4 KEY_bulkSelectedGames (stringify_ids J (bulkSelectedGames s))) (\<lambda>st5.
       persist_string KEY_paymentMethodUuid (paymentMethodUuid s) st5)))))"

subsection \<open>Cart items that ask for custom fields\<close>

text \<open>
  \<^verbatim>\<open>cartItems.filter(item => item.customFields && item.customFields.length > 0)\<close>, then
  the first item of every original menu item id, in cart order (the insertion order of
  the \<^verbatim>\<open>Map\<close>).
\<close>

definition has_fields :: "CartItem \<Rightarrow> bool" where
  "has_fields item = (case customFields item of None \<Rightarrow> False | Some fs \<Rightarrow> length fs > 0)"

fun uniqueItems :: "CartItem list \<Rightarrow> (string \<times> CartItem) list \<Rightarrow> (string \<times> CartItem) list" where
  "uniqueItems [] acc = acc"
| "uniqueItems (item # rest) acc =
     (let originalId = getOriginalMenuItemId (item_id item)
      in if originalId \<in> set (map fst acc) then uniqueItems rest acc
         else uniqueItems rest (acc @ [(originalId, item)]))"

definition itemsWithCustomFields :: "CartItem list \<Rightarrow> CartItem list" where
  "itemsWithCustomFields cartItems = map snd (uniqueItems (filter has_fields cartItems) [])"

definition hasAnyCustomFields :: "CartItem list \<Rightarrow> bool" where
  "hasAnyCustomFields cartItems = (length (itemsWithCustomFields cartItems) > 0)"

text \<open>
  The key of a field's value, as the form inputs, the bulk fan-out, the validation and
  the order payload build it: \<^verbatim>\<open>`${originalId}_${fieldIndex}_${field.key}`\<close>.
\<close>

definition valueKey :: "string \<Rightarrow> nat \<Rightarrow> string \<Rightarrow> string" where
  "valueKey originalId fieldIndex k = originalId @ ''_'' @ show_nat fieldIndex @ ''_'' @ k"

text \<open>\<^verbatim>\<open>item.customFields?.[i]\<close>, with \<open>None\<close> for \<^verbatim>\<open>undefined\<close>.\<close>

definition field_at :: "CartItem \<Rightarrow> int option \<Rightarrow> CustomField option" where
  "field_at item fieldIndex =
     (case (customFields item, fieldIndex) of
        (Some fs, Some i) \<Rightarrow> if 0 \<le> i \<and> nat i < length fs then Some (fs ! nat i) else None
      | _ \<Rightarrow> None)"

text \<open>The \<^verbatim>\<open>onChange\<close> of the input of one field of one item, and of the fallback input.\<close>

definition handleFieldInput :: "CartItem \<Rightarrow> nat \<Rightarrow> CustomField \<Rightarrow> string \<Rightarrow> checkout \<Rightarrow> checkout" where
  "handleFieldInput item fieldIndex field newValue s =
     (let originalId = getOriginalMenuItemId (item_id item);
          k = valueKey originalId fieldIndex (field_key field)
      in s\<lparr>customFieldValues := (customFieldValues s)(k \<mapsto> newValue)\<rparr>)"

definition handleDefaultIgnInput :: "string \<Rightarrow> checkout \<Rightarrow> checkout" where
  "handleDefaultIgnInput newValue s =
     s\<lparr>customFieldValues := (customFieldValues s)(''default_ign'' \<mapsto> newValue)\<rparr>"

subsection \<open>Bulk input\<close>

definition selectedItems :: "CartItem list \<Rightarrow> string list \<Rightarrow> CartItem list" where
  "selectedItems cartItems selected =
     filter (\<lambda>item. getOriginalMenuItemId (item_id item) \<in> set selected)
       (itemsWithCustomFields cartItems)"

definition field_count :: "CartItem \<Rightarrow> nat" where
  "field_count item = (case customFields item of None \<Rightarrow> 0 | Some fs \<Rightarrow> length fs)"

text \<open>
  \<^verbatim>\<open>bulkInputFields\<close>: one entry \<^verbatim>\<open>{ index, field }\<close> for each position below the
  largest field count of the selected items, the field taken from the first of them.
  \<^verbatim>\<open>Math.max(...counts)\<close> is a fold of \<open>max\<close>; it is reached with a non-empty list only.
\<close>

definition bulkInputFields :: "CartItem list \<Rightarrow> string list \<Rightarrow> (nat \<times> CustomField option) list" where
  "bulkInputFields cartItems selected =
     (if length selected = 0 then []
      else let sel = selectedItems cartItems selected
           in if length sel = 0 then []
              else let maxFields = fold max (map field_count sel) 0
                   in if maxFields = 0 then []
                      else map (\<lambda>i. (i, field_at (hd sel) (Some (int i)))) [0..<maxFields])"





definition handleBulkGameSelectionChange :: "string \<Rightarrow> bool \<Rightarrow> checkout \<Rightarrow> checkout" where
  "handleBulkGameSelectionChange itemId checked s =
     (let originalId = getOriginalMenuItemId itemId
      in if checked then s\<lparr>bulkSelectedGames := bulkSelectedGames s @ [originalId]\<rparr>
         else s\<lparr>bulkSelectedGames := filter (\<lambda>i. i \<noteq> originalId) (bulkSelectedGames s)\<rparr>)"

text \<open>
  The fan-out effect. For one entry \<^verbatim>\<open>[fieldIndexStr, value]\<close> and one selected item
  it assigns \<^verbatim>\<open>updates[valueKey] = value\<close> when the item has a field at that position
  (and is found again in \<^verbatim>\<open>itemsWithCustomFields\<close>), and nothing otherwise.
  \<open>bulk_writes\<close> lists the assignments in the order the two nested loops make them.
\<close>

definition item_write :: "CartItem list \<Rightarrow> int option \<Rightarrow> string \<Rightarrow> CartItem \<Rightarrow> (string \<times> string) list" where
  "item_write cartItems fieldIndex v item =
     (case field_at item fieldIndex of
        None \<Rightarrow> []
      | Some field \<Rightarrow>
          let originalId = getOriginalMenuItemId (item_id item);
              actualItemIndex = findIndex (\<lambda>i. getOriginalMenuItemId (item_id i) = originalId)
                                   (itemsWithCustomFields cartItems)
          in if actualItemIndex \<noteq> - 1
             then [(valueKey originalId (nat (the fieldIndex)) (field_key field), v)]
             else [])"

definition bulk_writes :: "CartItem list \<Rightarrow> string list \<Rightarrow> (string \<times> string) list \<Rightarrow> (string \<times> string) list" where
  "bulk_writes cartItems selected entries =
     concat (map (\<lambda>(fieldIndexStr, v).
                    concat (map (item_write cartItems (parseInt fieldIndexStr) v)
                              (selectedItems cartItems selected)))
                 entries)"

definition assign_all :: "(string \<times> string) list \<Rightarrow> (string \<rightharpoonup> string) \<Rightarrow> (string \<rightharpoonup> string)" where
  "assign_all writes m = fold (\<lambda>(k, v) acc. acc(k \<mapsto> v)) writes m"


subsection \<open>Validation\<close>

text \<open>\<^verbatim>\<open>customFieldValues[k]?.trim() || false\<close>, read as a condition.\<close>

definition filled :: "(string \<rightharpoonup> string) \<Rightarrow> string \<Rightarrow> bool" where
  "filled cfv k = truthy (map_option trim (cfv k))"

definition isDetailsValid :: "CartItem list \<Rightarrow> (string \<rightharpoonup> string) \<Rightarrow> bool" where
  "isDetailsValid cartItems cfv =
     (if \<not> hasAnyCustomFields cartItems then filled cfv ''default_ign''
      else list_all (\<lambda>item.
             case customFields item of
               None \<Rightarrow> True
             | Some fs \<Rightarrow>
                 let originalId = getOriginalMenuItemId (item_id item)
                 in list_all (\<lambda>(fieldIndex, field).
                      if \<not> required field then True
                      else filled cfv (valueKey originalId fieldIndex (field_key field)))
                    (enumerate 0 fs))
           (itemsWithCustomFields cartItems))"

subsection \<open>The order message\<close>

text \<open>
  The filled fields of one item as the composer reads them. Its key is
  \<^verbatim>\<open>`${originalId}_${field.key}`\<close>: the field's position is not part of it.
\<close>

definition message_fields :: "(string \<rightharpoonup> string) \<Rightarrow> CartItem \<Rightarrow> (string \<times> string) list" where
  "message_fields cfv item =
     (let originalId = getOriginalMenuItemId (item_id item)
      in case customFields item of
           None \<Rightarrow> []
         | Some fs \<Rightarrow>
             List.map_filter (\<lambda>field.
                 let k = originalId @ ''_'' @ field_key field;
                     v = or_empty (cfv k)
                 in if v \<noteq> [] then Some (field_label field, v) else None) fs)"

text \<open>
  \<^verbatim>\<open>gamesByFieldValues\<close>: a \<^verbatim>\<open>Map\<close> from the joined label/value pairs to the names of
  the items that gave them, in insertion order.
\<close>

type_synonym game_groups = "(string \<times> string list \<times> (string \<times> string) list) list"

definition push_game :: "string \<Rightarrow> string \<Rightarrow> game_groups \<Rightarrow> game_groups" where
  "push_game k name groups =
     map (\<lambda>(k', games, flds). if k' = k then (k', games @ [name], flds) else (k', games, flds))
       groups"

text \<open>\<^verbatim>\<open>flds.map(f => `${f.label}:${f.value}`).join('|')\<close>, the key of a group.\<close>

definition group_key :: "(string \<times> string) list \<Rightarrow> string" where
  "group_key flds = join_str ''|'' (map (\<lambda>(l, v). l @ '':'' @ v) flds)"

definition add_game :: "(string \<rightharpoonup> string) \<Rightarrow> CartItem \<Rightarrow> game_groups \<Rightarrow> game_groups" where
  "add_game cfv item groups =
     (let flds = message_fields cfv item
      in if length flds = 0 then groups
         else let k = group_key flds;
                  groups' = (if k \<in> set (map fst groups) then groups
                             else groups @ [(k, [], flds)])
              in push_game k (item_name item) groups')"

definition gamesByFieldValues :: "(string \<rightharpoonup> string) \<Rightarrow> CartItem list \<Rightarrow> game_groups" where
  "gamesByFieldValues cfv cartItems = fold (add_game cfv) (itemsWithCustomFields cartItems) []"

definition NL :: string where
  "NL = [CHR 0x0A]"

definition group_sections :: "string list \<times> (string \<times> string) list \<Rightarrow> string list" where
  "group_sections g =
     (case g of (games, flds) \<Rightarrow>
        if length games = 0 \<or> length flds = 0 then []
        else let allValuesSame = list_all (\<lambda>f. snd f = snd (hd flds)) flds
             in if allValuesSame \<and> length flds > 1
                then let labels = join_str '', '' (map fst flds);
                         lastCommaIndex = lastIndexOf labels (CHR '','');
                         combinedLabels =
                           (if lastCommaIndex > 0
                            then take (nat lastCommaIndex) labels @ '' &''
                                 @ drop (nat lastCommaIndex + 1) labels
                            else labels)
                     in [join_str NL games, combinedLabels @ '': '' @ snd (hd flds)]
                else [join_str NL games,
                      join_str '', '' (map (\<lambda>(l, v). l @ '': '' @ v) flds)])"

definition emoji_game :: string where
  "emoji_game = [CHR 0xF0, CHR 0x9F, CHR 0x8E, CHR 0xAE]"

definition customFieldsSection :: "(string \<rightharpoonup> string) \<Rightarrow> CartItem list \<Rightarrow> string" where
  "customFieldsSection cfv cartItems =
     (if hasAnyCustomFields cartItems
      then let sections = concat (map (\<lambda>(k, g). group_sections g) (gamesByFieldValues cfv cartItems))
           in if length sections > 0 then join_str NL sections else []
      else emoji_game @ '' IGN: '' @ or_empty (cfv ''default_ign''))"

definition selectedPaymentMethod :: "PaymentMethod list \<Rightarrow> string option \<Rightarrow> PaymentMethod option" where
  "selectedPaymentMethod paymentMethods uuid = find (\<lambda>m. Some (uuid_id m) = uuid) paymentMethods"

definition order_line :: "CartItem \<Rightarrow> string" where
  "order_line item =
     [CHR 0xE2, CHR 0x80, CHR 0xA2] @ '' '' @ item_name item
     @ (case selectedVariation item of None \<Rightarrow> [] | Some v \<Rightarrow> '' ('' @ variation_name v @ '')'')
     @ '' x'' @ show_int (quantity item) @ '' - '' @ [CHR 0xE2, CHR 0x82, CHR 0xB1]
     @ show_int (totalPrice item * quantity item)"

text \<open>The template of \<^verbatim>\<open>generateOrderMessage\<close>, line by line, before \<^verbatim>\<open>.trim()\<close>.\<close>

definition order_template :: "string \<Rightarrow> string \<Rightarrow> string \<Rightarrow> string \<Rightarrow> string \<Rightarrow> string" where
  "order_template section lines orderTotal payment receipt =
     NL @ [CHR 0xF0, CHR 0x9F, CHR 0x9B, CHR 0x92] @ '' Reina Shop ORDER'' @ NL
     @ NL
     @ section @ NL
     @ NL
     @ [CHR 0xF0, CHR 0x9F, CHR 0x93, CHR 0x8B] @ '' ORDER DETAILS:'' @ NL
     @ lines @ NL
     @ NL
     @ [CHR 0xF0, CHR 0x9F, CHR 0x92, CHR 0xB0] @ '' TOTAL: '' @ [CHR 0xE2, CHR 0x82, CHR 0xB1] @ orderTotal @ NL
     @ NL
     @ [CHR 0xF0, CHR 0x9F, CHR 0x92, CHR 0xB3] @ '' Payment: '' @ payment @ NL
     @ NL
     @ [CHR 0xF0, CHR 0x9F, CHR 0x93, CHR 0xB8] @ '' Payment Receipt: '' @ receipt @ NL
     @ NL
     @ ''Please confirm this order to proceed. Thank you for choosing Reina Shop! '' @ emoji_game @ NL
     @ ''    ''"

definition generateOrderMessage ::
  "CartItem list \<Rightarrow> int \<Rightarrow> PaymentMethod list \<Rightarrow> checkout \<Rightarrow> string" where
  "generateOrderMessage cartItems orderTotal paymentMethods s =
     trim (order_template
       (customFieldsSection (customFieldValues s) cartItems)
       (join_str NL (map order_line cartItems))
       (show_int orderTotal)
       (case selectedPaymentMethod paymentMethods (paymentMethodUuid s) of
          None \<Rightarrow> [] | Some m \<Rightarrow> method_name m)
       (or_empty (receiptImageUrl s)))"

subsection \<open>Handlers\<close>

text \<open>
  What a handler does outside the component: a window opened on a link, an order sent
  to the backend, a line on the console.
\<close>

record order_payload =
  order_items :: "CartItem list"
  customer_info :: "string \<rightharpoonup> string"
  payment_method_id :: string
  receipt_url :: string
  total_price :: int

datatype call =
    is_WindowOpen: WindowOpen string
  | is_CreateOrder: CreateOrder order_payload
  | is_ConsoleError: ConsoleError string

definition handleReceiptRemove :: "checkout \<Rightarrow> checkout" where
  "handleReceiptRemove s =
     s\<lparr>receiptFile := None, receiptImageUrl := None, receiptPreview := None,
       receiptError := None, hasCopiedMessage := False\<rparr>"

definition MSG_select_payment :: string where
  "MSG_select_payment = ''Please select a payment method''"

definition MSG_upload_receipt :: string where
  "MSG_upload_receipt = ''Please upload your payment receipt before placing the order''"

definition MSG_failed :: string where
  "MSG_failed = ''Failed to place order. Please try again.''"

text \<open>
  \<^verbatim>\<open>handlePlaceOrder\<close>, the messenger mode. \<^verbatim>\<open>encodeURIComponent\<close> is the browser's and
  a parameter.
\<close>

definition handlePlaceOrder ::
  "(string \<Rightarrow> string) \<Rightarrow> CartItem list \<Rightarrow> int \<Rightarrow> PaymentMethod list \<Rightarrow> checkout
     \<Rightarrow> checkout \<times> call list" where
  "handlePlaceOrder encodeURIComponent cartItems orderTotal paymentMethods s =
     (if \<not> truthy (paymentMethodUuid s)
      then (s\<lparr>receiptError := Some MSG_select_payment\<rparr>, [])
      else if \<not> truthy (receiptImageUrl s)
      then (s\<lparr>receiptError := Some MSG_upload_receipt\<rparr>, [])
      else let orderDetails = generateOrderMessage cartItems orderTotal paymentMethods s;
               encodedMessage = encodeURIComponent orderDetails;
               messengerUrl = ''https://m.me/779999235186541?text='' @ encodedMessage
           in (s, [WindowOpen messengerUrl]))"

text \<open>
  The customer information of the order payload: the payment method's name, then every
  filled field under its label, or the fallback name.
\<close>

definition item_info :: "(string \<rightharpoonup> string) \<Rightarrow> CartItem \<Rightarrow> (string \<times> string) list" where
  "item_info cfv item =
     (let originalId = getOriginalMenuItemId (item_id item)
      in case customFields item of
           None \<Rightarrow> []
         | Some fs \<Rightarrow>
             concat (map (\<lambda>(fieldIndex, field).
                 let v = cfv (valueKey originalId fieldIndex (field_key field))
                 in if truthy v then [(field_label field, the v)] else [])
               (enumerate 0 fs)))"

definition customerInfo ::
  "CartItem list \<Rightarrow> (string \<rightharpoonup> string) \<Rightarrow> PaymentMethod \<Rightarrow> (string \<rightharpoonup> string)" where
  "customerInfo cartItems cfv m =
     assign_all
       (if hasAnyCustomFields cartItems
        then concat (map (item_info cfv) (itemsWithCustomFields cartItems))
        else if truthy (cfv ''default_ign'') then [(''IGN'', the (cfv ''default_ign''))] else [])
       [''Payment Method'' \<mapsto> method_name m]"

text \<open>
  \<^verbatim>\<open>handlePlaceOrderDirect\<close>, the direct mode. \<^verbatim>\<open>createOrder\<close> is the backend's: it
  throws, or returns no order, or the new order. The handler runs on the component's
  state and the store, and returns both with the calls it made.
\<close>

definition handlePlaceOrderDirect ::
  "(order_payload \<Rightarrow> js_error + Order option) \<Rightarrow> CartItem list \<Rightarrow> int
     \<Rightarrow> PaymentMethod list \<Rightarrow> checkout \<times> localStorage
     \<Rightarrow> checkout \<times> localStorage \<times> call list" where
  "handlePlaceOrderDirect createOrder cartItems orderTotal paymentMethods w =
     (case w of (s, st) \<Rightarrow>
      if \<not> truthy (paymentMethodUuid s)
      then (s\<lparr>receiptError := Some MSG_select_payment\<rparr>, st, [])
      else if \<not> truthy (receiptImageUrl s)
      then (s\<lparr>receiptError := Some MSG_upload_receipt\<rparr>, st, [])
      else case selectedPaymentMethod paymentMethods (paymentMethodUuid s) of
        None \<Rightarrow> (s\<lparr>receiptError := Some MSG_select_payment\<rparr>, st, [])
      | Some m \<Rightarrow>
          let s1 = s\<lparr>isPlacingOrder := True, receiptError := None\<rparr>;
              payload = \<lparr> order_items = cartItems,
                          customer_info = customerInfo cartItems (customFieldValues s) m,
                          payment_method_id = uuid_id m,
                          receipt_url = the (receiptImageUrl s),
                          total_price = orderTotal \<rparr>
          in case createOrder payload of
               Inl e \<Rightarrow>
                 (s1\<lparr>receiptError := Some MSG_failed, isPlacingOrder := False\<rparr>, st,
                  [CreateOrder payload, ConsoleError ''Error placing order:''])
             | Inr None \<Rightarrow> (s1\<lparr>isPlacingOrder := False\<rparr>, st, [CreateOrder payload])
             | Inr (Some newOrder) \<Rightarrow>
                 let s2 = s1\<lparr>orderId := Some (order_id newOrder),
                             existingOrderStatus := Some (order_status newOrder)\<rparr>
                 in case setItem st KEY_current_order_id (order_id newOrder) of
                      Inl e \<Rightarrow>
                        (s2\<lparr>receiptError := Some MSG_failed, isPlacingOrder := False\<rparr>, st,
                         [CreateOrder payload, ConsoleError ''Error placing order:''])
                    | Inr st' \<Rightarrow>
                        (s2\<lparr>isOrderModalOpen := True, isPlacingOrder := False\<rparr>, st',
                         [CreateOrder payload]))"

text \<open>
  \<^verbatim>\<open>checkExistingOrder\<close>, run once on mount. \<^verbatim>\<open>fetchOrderById\<close> is the backend's and
  returns the order or nothing. The store is read with no \<^verbatim>\<open>try\<close> around it.
\<close>

definition checkExistingOrder ::
  "(string \<Rightarrow> Order option) \<Rightarrow> checkout \<times> localStorage \<Rightarrow> js_error + checkout \<times> localStorage" where
  "checkExistingOrder fetchOrderById w =
     (case w of (s, st) \<Rightarrow>
      bind_err (getItem st KEY_current_order_id) (\<lambda>storedOrderId.
        bind_err
          (if truthy storedOrderId
           then (case fetchOrderById (the storedOrderId) of
                   Some order \<Rightarrow>
                     let s1 = s\<lparr>existingOrderStatus := Some (order_status order),
                                 orderId := Some (order_id order)\<rparr>
                     in if order_status order = ''approved''
                        then bind_err (removeItem st KEY_current_order_id) (\<lambda>st'.
                               Inr (s1\<lparr>existingOrderStatus := None, orderId := None\<rparr>, st'))
                        else Inr (s1, st)
                 | None \<Rightarrow>
                     bind_err (removeItem st KEY_current_order_id) (\<lambda>st'. Inr (s, st')))
           else Inr (s, st))
          (\<lambda>(s', st'). Inr (s'\<lparr>isCheckingExistingOrder := False\<rparr>, st'))))"

text \<open>
  A cart item with its cart-instance suffix cut off: what an operation sees of the item
  if it reads the identifier through \<open>getOriginalMenuItemId\<close> only.
\<close>

definition with_original_id :: "CartItem \<Rightarrow> CartItem" where
  "with_original_id item = item\<lparr>item_id := getOriginalMenuItemId (item_id item)\<rparr>"

text \<open>
  Where a separator stands in a string: \<open>occurs_at sep s n\<close> when the characters of
  \<open>s\<close> from position \<open>n\<close> on start with \<open>sep\<close>; \<open>first_occurrence sep s n\<close> when
  \<open>n\<close> is the least such position; \<open>absent sep s\<close> when there is none.
\<close>

definition occurs_at :: "string \<Rightarrow> string \<Rightarrow> nat \<Rightarrow> bool" where
  "occurs_at sep s n = (take (length sep) (drop n s) = sep)"

definition first_occurrence :: "string \<Rightarrow> string \<Rightarrow> nat \<Rightarrow> bool" where
  "first_occurrence sep s n = (occurs_at sep s n \<and> list_all (\<lambda>m. \<not> occurs_at sep s m) [0..<n])"

definition absent :: "string \<Rightarrow> string \<Rightarrow> bool" where
  "absent sep s = list_all (\<lambda>m. \<not> occurs_at sep s m) [0..<Suc (length s)]"

text \<open>
  The spec's words for the grouping: items asking for custom fields are deduplicated by
  their original identifier, so that several packages of one menu item are one target of
  field collection. \<open>first_per_original_id\<close> keeps, in cart order, the first item of
  every original id; it is compared below with \<open>itemsWithCustomFields\<close>, which the
  source computes with a \<^verbatim>\<open>Map\<close>.
\<close>

fun first_per_original_id :: "CartItem list \<Rightarrow> CartItem list" where
  "first_per_original_id [] = []"
| "first_per_original_id (x # xs) =
     x # first_per_original_id
           (filter (\<lambda>y. getOriginalMenuItemId (item_id y) \<noteq> getOriginalMenuItemId (item_id x)) xs)"

subsection \<open>Mount and reload\<close>





subsection \<open>Sample data\<close>

text \<open>A small shop, used where a theorem is applied to concrete input.\<close>

definition field_ign :: CustomField where
  "field_ign = \<lparr> field_key = ''ign'', field_label = ''IGN'', placeholder = ''In game name'',
                 required = True \<rparr>"

definition field_user :: CustomField where
  "field_user = \<lparr> field_key = ''id'', field_label = ''User ID'', placeholder = [],
                  required = True \<rparr>"

definition field_zone :: CustomField where
  "field_zone = \<lparr> field_key = ''id'', field_label = ''Zone ID'', placeholder = [],
                  required = False \<rparr>"


definition item_A :: CartItem where
  "item_A = \<lparr> item_id = ''a:::CART:::1700000000-k3'', item_name = ''A'', quantity = 1,
              totalPrice = 50, selectedVariation = None, customFields = Some [field_ign] \<rparr>"

definition item_B :: CartItem where
  "item_B = \<lparr> item_id = ''b:::CART:::1700000001-p9'', item_name = ''B'', quantity = 2,
              totalPrice = 50, selectedVariation = Some \<lparr> variation_name = ''Small'' \<rparr>,
              customFields = Some [field_ign] \<rparr>"

definition item_two :: CartItem where
  "item_two = \<lparr> item_id = ''d:::CART:::1700000002-aa'', item_name = ''D'', quantity = 1,
                totalPrice = 99, selectedVariation = None,
                customFields = Some [field_user, field_zone] \<rparr>"


definition item_plain :: CartItem where
  "item_plain = \<lparr> item_id = ''c:::CART:::1700000004-cc'', item_name = ''C'', quantity = 1,
                  totalPrice = 100, selectedVariation = None, customFields = None \<rparr>"

definition method_gcash :: PaymentMethod where
  "method_gcash = \<lparr> uuid_id = ''u1'', method_name = ''GCash'', account_number = ''0917'',
                    account_name = ''Reina'', qr_code_url = None, icon_url = None \<rparr>"

definition fresh_state :: checkout where
  "fresh_state =
     \<lparr> paymentMethodUuid = None, showPaymentDetailsModal = False,
       customFieldValues = Map.empty, receiptFile = None, receiptImageUrl = None,
       receiptPreview = None, receiptError = None, copied = False,
       hasCopiedMessage = False, copiedAccountNumber = False,
       copiedAccountName = False, bulkInputValues = [],
       bulkSelectedGames = [], orderId = None, isOrderModalOpen = False,
       isPlacingOrder = False, existingOrderStatus = None,
       isCheckingExistingOrder = True \<rparr>"

text \<open>A state ready for submission: a payment method chosen, a receipt uploaded.\<close>

definition paid_state :: checkout where
  "paid_state = fresh_state\<lparr>paymentMethodUuid := Some ''u1'',
                             receiptImageUrl := Some ''https://cdn/receipt.png''\<rparr>"

text \<open>A store that remembers the order \<open>o1\<close>.\<close>

definition stored_order :: "string \<rightharpoonup> string" where
  "stored_order = [KEY_current_order_id \<mapsto> ''o1'']"

text \<open>The customer typed \<open>X\<close> into the IGN input of \<open>A\<close> and of \<open>B\<close>.\<close>

definition typed_AB :: checkout where
  "typed_AB = handleFieldInput item_B 0 field_ign ''X''
                (handleFieldInput item_A 0 field_ign ''X'' paid_state)"

text \<open>The customer typed \<open>111\<close> and \<open>222\<close> into the two inputs of \<open>D\<close>, whose field
  keys are both \<open>id\<close>.\<close>

definition typed_two :: checkout where
  "typed_two = handleFieldInput item_two 1 field_zone ''222''
                 (handleFieldInput item_two 0 field_user ''111'' paid_state)"


text \<open>A second package of the menu item \<open>a\<close>, put into the cart after \<open>A\<close> and \<open>B\<close>.\<close>

definition item_A2 :: CartItem where
  "item_A2 = \<lparr> item_id = ''a:::CART:::1700000009-zz'', item_name = ''A large'', quantity = 3,
               totalPrice = 80, selectedVariation = Some \<lparr> variation_name = ''Large'' \<rparr>,
               customFields = Some [field_ign] \<rparr>"

definition dup_cart :: "CartItem list" where
  "dup_cart = [item_A, item_plain, item_B, item_A2]"

text \<open>
  The stored payment method id \<open>u9\<close> belongs to a method that is no longer listed; the
  receipt is uploaded.
\<close>

definition stale_state :: checkout where
  "stale_state = paid_state\<lparr>paymentMethodUuid := Some ''u9''\<rparr>"












section \<open>Theorems\<close>

subsection \<open>The original menu item id\<close>

lemma js_split_no_occurrence:
  "sep \<noteq> [] \<Longrightarrow> \<not> occurs_in sep s \<Longrightarrow> js_split sep acc s = [acc @ s]"
proof (induction s arbitrary: acc)
  case Nil
  then show ?case by simp
next
  case (Cons c cs)
  have np: "\<not> prefix sep (c # cs)"
  proof
    assume "prefix sep (c # cs)"
    then obtain q where "c # cs = sep @ q" by (auto simp: prefix_def)
    then have "c # cs = [] @ sep @ q" by simp
    with Cons.prems(2) show False unfolding occurs_in_def by blast
  qed
  have "\<not> occurs_in sep cs"
  proof
    assume "occurs_in sep cs"
    then obtain p q where "cs = p @ sep @ q" unfolding occurs_in_def by blast
    then have "c # cs = (c # p) @ sep @ q" by simp
    with Cons.prems(2) show False unfolding occurs_in_def by blast
  qed
  with Cons.IH[OF Cons.prems(1), of "acc @ [c]"] np show ?case by simp
qed

lemma js_split_first_occurrence:
  "sep \<noteq> [] \<Longrightarrow> s = p @ sep @ q \<Longrightarrow>
   (\<forall>p' q'. s = p' @ sep @ q' \<longrightarrow> length p \<le> length p') \<Longrightarrow>
   js_split sep acc s = (acc @ p) # js_split sep [] q"
proof (induction p arbitrary: acc s)
  case Nil
  then have "s \<noteq> []" by simp
  then obtain c cs where s: "s = c # cs" by (cases s) auto
  have "prefix sep (c # cs)" using Nil.prems(2) s by (simp add: prefix_def)
  moreover have "drop (length sep) (c # cs) = q" using Nil.prems(2) s by simp
  ultimately show ?case using Nil.prems(1) s by simp
next
  case (Cons x p)
  have s: "s = x # (p @ sep @ q)" using Cons.prems(2) by simp
  have np: "\<not> prefix sep (x # (p @ sep @ q))"
  proof
    assume "prefix sep (x # (p @ sep @ q))"
    then obtain q' where "s = [] @ sep @ q'" using s by (auto simp: prefix_def)
    with Cons.prems(3) have "length (x # p) \<le> length ([]::string)" by blast
    then show False by simp
  qed
  have least: "\<forall>p' q'. p @ sep @ q = p' @ sep @ q' \<longrightarrow> length p \<le> length p'"
  proof (intro allI impI)
    fix p' q' assume "p @ sep @ q = p' @ sep @ q'"
    then have "s = (x # p') @ sep @ q'" using s by simp
    with Cons.prems(3) have "length (x # p) \<le> length (x # p')" by blast
    then show "length p \<le> length p'" by simp
  qed
  from Cons.IH[OF Cons.prems(1) refl least, of "acc @ [x]"] np s
  show ?case by simp
qed

lemma first_occurrence_prefix_free:
  assumes "sep \<noteq> []" "s = p @ sep @ q"
    and "\<forall>p' q'. s = p' @ sep @ q' \<longrightarrow> length p \<le> length p'"
  shows "\<not> occurs_in sep p"
proof
  assume "occurs_in sep p"
  then obtain a b where "p = a @ sep @ b" unfolding occurs_in_def by blast
  then have "s = a @ sep @ (b @ sep @ q)" "length a < length p"
    using assms(1,2) by auto
  with assms(3) show False by (metis not_less)
qed

lemma occurs_in_first:
  assumes "occurs_in sep s"
  shows "\<exists>p q. s = p @ sep @ q \<and> (\<forall>p' q'. s = p' @ sep @ q' \<longrightarrow> length p \<le> length p')"
proof -
  let ?P = "\<lambda>n. \<exists>p q. s = p @ sep @ q \<and> length p = n"
  from assms have "\<exists>n. ?P n" unfolding occurs_in_def by blast
  then have "?P (LEAST n. ?P n)" by (rule LeastI_ex)
  then obtain p q where pq: "s = p @ sep @ q" "length p = (LEAST n. ?P n)" by blast
  have "\<forall>p' q'. s = p' @ sep @ q' \<longrightarrow> length p \<le> length p'"
  proof (intro allI impI)
    fix p' q' assume "s = p' @ sep @ q'"
    then have "?P (length p')" by blast
    then have "(LEAST n. ?P n) \<le> length p'" by (rule Least_le)
    with pq(2) show "length p \<le> length p'" by simp
  qed
  with pq(1) show ?thesis by blast
qed

lemma CART_SEP_nonempty: "CART_SEP \<noteq> []"
  by (simp add: CART_SEP_def)

lemma getOriginalMenuItemId_absent:
  "\<not> occurs_in CART_SEP s \<Longrightarrow> getOriginalMenuItemId s = s"
  by (simp add: getOriginalMenuItemId_def split_str_def CART_SEP_nonempty
      js_split_no_occurrence)

lemma js_split_nonempty: "js_split sep acc s \<noteq> []"
  by (induction sep acc s rule: js_split.induct) auto

lemma getOriginalMenuItemId_first:
  assumes "s = p @ CART_SEP @ q"
    and "\<forall>p' q'. s = p' @ CART_SEP @ q' \<longrightarrow> length p \<le> length p'"
  shows "getOriginalMenuItemId s = p"
proof -
  have "js_split CART_SEP [] s = p # js_split CART_SEP [] q"
    using js_split_first_occurrence[OF CART_SEP_nonempty assms(1) assms(2), of "[]"] by simp
  moreover have "length (js_split CART_SEP [] q) > 0"
    using js_split_nonempty by simp
  ultimately show ?thesis
    by (simp add: getOriginalMenuItemId_def split_str_def CART_SEP_nonempty)
qed

lemma getOriginalMenuItemId_idem:
  "getOriginalMenuItemId (getOriginalMenuItemId s) = getOriginalMenuItemId s"
proof (cases "occurs_in CART_SEP s")
  case False
  then show ?thesis by (simp add: getOriginalMenuItemId_absent)
next
  case True
  from occurs_in_first[OF this] obtain p q where pq: "s = p @ CART_SEP @ q"
    "\<forall>p' q'. s = p' @ CART_SEP @ q' \<longrightarrow> length p \<le> length p'" by blast
  have "getOriginalMenuItemId s = p" using getOriginalMenuItemId_first[OF pq] .
  moreover have "\<not> occurs_in CART_SEP p"
    using first_occurrence_prefix_free[OF CART_SEP_nonempty pq] .
  ultimately show ?thesis by (simp add: getOriginalMenuItemId_absent)
qed

subsection \<open>Decimal digits\<close>

lemma digit_char_cases:
  "d < 10 \<Longrightarrow> digit_char d \<in> set ''0123456789''"
proof -
  assume "d < 10"
  then have "d < length ''0123456789''" by simp
  then show ?thesis unfolding digit_char_def by (rule nth_mem)
qed

lemma below_ten: "d < 10 \<Longrightarrow> d \<in> set [0, 1, 2, 3, 4, 5, 6, 7, 8, 9::nat]"
  by (simp only: list.set insert_iff empty_iff) arith

lemma digit_val_digit_char: "d < 10 \<Longrightarrow> digit_val (digit_char d) = d"
  using below_ten[of d] by (auto simp: digit_val_def digit_char_def)

lemma show_nat_digits: "set (show_nat n) \<subseteq> set ''0123456789''"
proof (induction n rule: show_nat.induct)
  case (1 n)
  show ?case
  proof (cases "n < 10")
    case True
    then show ?thesis using digit_char_cases[of n] by (subst show_nat.simps) simp
  next
    case False
    have "n mod 10 < 10" by simp
    then have "digit_char (n mod 10) \<in> set ''0123456789''" by (rule digit_char_cases)
    with 1[OF False] False show ?thesis by (subst show_nat.simps) simp
  qed
qed


lemma digits_val_snoc: "digits_val (ds @ [c]) = 10 * digits_val ds + digit_val c"
  by (simp add: digits_val_def)

lemma digits_val_show_nat: "digits_val (show_nat n) = n"
proof (induction n rule: show_nat.induct)
  case (1 n)
  show ?case
  proof (cases "n < 10")
    case True
    then show ?thesis
      by (subst show_nat.simps) (simp add: digits_val_def digit_val_digit_char)
  next
    case False
    have "digits_val (show_nat (n div 10) @ [digit_char (n mod 10)])
          = 10 * (n div 10) + n mod 10"
      using 1[OF False] by (simp add: digits_val_snoc digit_val_digit_char)
    with False show ?thesis by (subst show_nat.simps) simp
  qed
qed

lemma show_nat_inj: "show_nat i = show_nat j \<Longrightarrow> i = j"
  by (metis digits_val_show_nat)

lemma show_nat_no_underscore: "CHR ''_'' \<notin> set (show_nat n)"
proof
  assume "CHR ''_'' \<in> set (show_nat n)"
  then have "CHR ''_'' \<in> set ''0123456789''" by (rule subsetD[OF show_nat_digits])
  then show False by simp
qed





subsection \<open>Value keys\<close>

text \<open>
  Within one item the key names the position and the field key: two fields of an item
  never share an entry, also when their field keys are equal. Across items the same holds
  when the original ids hold no underscore.
\<close>

lemma split_at_first:
  assumes "x \<notin> set xs" "x \<notin> set xs'" "xs @ x # ys = xs' @ x # ys'"
  shows "xs = xs' \<and> ys = ys'"
  using assms
proof (induction xs arbitrary: xs')
  case Nil
  then show ?case by (cases xs') auto
next
  case (Cons a xs)
  then show ?case by (cases xs') auto
qed

lemma valueKey_unfold:
  "valueKey a i k = a @ CHR ''_'' # (show_nat i @ CHR ''_'' # k)"
  by (simp add: valueKey_def)

lemma valueKey_same_item:
  assumes "valueKey a i k = valueKey a j k'"
  shows "i = j \<and> k = k'"
proof -
  from assms have "show_nat i @ CHR ''_'' # k = show_nat j @ CHR ''_'' # k'"
    by (simp only: valueKey_unfold same_append_eq list.inject simp_thms)
  then have "show_nat i = show_nat j \<and> k = k'"
    by (rule split_at_first[OF show_nat_no_underscore show_nat_no_underscore])
  then show ?thesis using show_nat_inj[of i j] by simp
qed


subsection \<open>Operations read the original id only\<close>

lemma woi_simps [simp]:
  "customFields (with_original_id x) = customFields x"
  "item_name (with_original_id x) = item_name x"
  "getOriginalMenuItemId (item_id (with_original_id x)) = getOriginalMenuItemId (item_id x)"
  by (simp_all add: with_original_id_def getOriginalMenuItemId_idem)

lemma woi_item_facts [simp]:
  "has_fields (with_original_id x) = has_fields x"
  "field_at (with_original_id x) i = field_at x i"
  "field_count (with_original_id x) = field_count x"
  "message_fields cfv (with_original_id x) = message_fields cfv x"
  "item_info cfv (with_original_id x) = item_info cfv x"
  by (simp_all add: has_fields_def field_at_def field_count_def message_fields_def
      item_info_def Let_def)

lemma add_game_woi [simp]: "add_game cfv (with_original_id x) = add_game cfv x"
  by (rule ext) (simp add: add_game_def Let_def)

lemma uniqueItems_woi:
  "uniqueItems (map with_original_id xs) (map (\<lambda>(k, i). (k, with_original_id i)) acc)
   = map (\<lambda>(k, i). (k, with_original_id i)) (uniqueItems xs acc)"
proof (induction xs arbitrary: acc)
  case Nil
  show ?case by simp
next
  case (Cons x xs)
  have keys: "map fst (map (\<lambda>(k, i). (k, with_original_id i)) acc) = map fst acc"
    by (induction acc) auto
  show ?case
  proof (cases "getOriginalMenuItemId (item_id x) \<in> set (map fst acc)")
    case True
    then show ?thesis using Cons.IH[of acc] keys by (simp add: Let_def)
  next
    case False
    then show ?thesis
      using Cons.IH[of "acc @ [(getOriginalMenuItemId (item_id x), x)]"] keys
      by (simp add: Let_def)
  qed
qed

lemma itemsWithCustomFields_woi:
  "itemsWithCustomFields (map with_original_id cart)
   = map with_original_id (itemsWithCustomFields cart)"
proof -
  have "filter has_fields (map with_original_id cart)
        = map with_original_id (filter has_fields cart)"
    by (simp add: filter_map comp_def)
  then show ?thesis
    using uniqueItems_woi[of "filter has_fields cart" "[]"]
    by (simp add: itemsWithCustomFields_def comp_def case_prod_unfold)
qed

lemma selectedItems_woi:
  "selectedItems (map with_original_id cart) sel = map with_original_id (selectedItems cart sel)"
  by (simp add: selectedItems_def itemsWithCustomFields_woi filter_map comp_def)

lemma findIndex_map: "findIndex P (map f xs) = findIndex (\<lambda>x. P (f x)) xs"
  by (induction xs) (simp_all add: Let_def)

lemma item_write_woi:
  "item_write (map with_original_id cart) fi v (with_original_id x) = item_write cart fi v x"
  by (simp add: item_write_def itemsWithCustomFields_woi findIndex_map Let_def
      split: option.splits)

lemma bulk_writes_woi:
  "bulk_writes (map with_original_id cart) sel es = bulk_writes cart sel es"
  by (simp add: bulk_writes_def selectedItems_woi comp_def item_write_woi)

lemma bulkInputFields_woi:
  "bulkInputFields (map with_original_id cart) sel = bulkInputFields cart sel"
proof (cases "selectedItems cart sel")
  case Nil
  then show ?thesis by (simp add: bulkInputFields_def selectedItems_woi)
next
  case (Cons x xs)
  then show ?thesis by (simp add: bulkInputFields_def selectedItems_woi comp_def Let_def)
qed

lemma isDetailsValid_woi:
  "isDetailsValid (map with_original_id cart) cfv = isDetailsValid cart cfv"
  by (simp add: isDetailsValid_def hasAnyCustomFields_def itemsWithCustomFields_woi
      list_all_iff Let_def split: option.splits)

lemma customFieldsSection_woi:
  "customFieldsSection cfv (map with_original_id cart) = customFieldsSection cfv cart"
  by (simp add: customFieldsSection_def hasAnyCustomFields_def gamesByFieldValues_def
      itemsWithCustomFields_woi fold_map comp_def)

lemma customerInfo_woi:
  "customerInfo (map with_original_id cart) cfv m = customerInfo cart cfv m"
  by (simp add: customerInfo_def hasAnyCustomFields_def itemsWithCustomFields_woi comp_def)

subsection \<open>Grouping by original id\<close>

text \<open>
  The \<^verbatim>\<open>Map\<close> of the source keeps what the spec asks for: the first item of every
  original id, in cart order.
\<close>

lemma uniqueItems_spec:
  "map snd (uniqueItems xs acc)
   = map snd acc @ first_per_original_id
       (filter (\<lambda>y. getOriginalMenuItemId (item_id y) \<notin> set (map fst acc)) xs)"
proof (induction xs arbitrary: acc)
  case Nil
  show ?case by simp
next
  case (Cons x xs)
  show ?case
  proof (cases "getOriginalMenuItemId (item_id x) \<in> set (map fst acc)")
    case True
    then show ?thesis using Cons.IH[of acc] by (simp add: Let_def)
  next
    case False
    have "filter (\<lambda>y. getOriginalMenuItemId (item_id y)
                       \<notin> set (map fst (acc @ [(getOriginalMenuItemId (item_id x), x)]))) xs
          = filter (\<lambda>y. getOriginalMenuItemId (item_id y) \<noteq> getOriginalMenuItemId (item_id x))
              (filter (\<lambda>y. getOriginalMenuItemId (item_id y) \<notin> set (map fst acc)) xs)"
      by (auto simp: filter_filter intro: filter_cong)
    then show ?thesis
      using False Cons.IH[of "acc @ [(getOriginalMenuItemId (item_id x), x)]"]
      by (simp add: Let_def)
  qed
qed

lemma itemsWithCustomFields_spec:
  "itemsWithCustomFields cart = first_per_original_id (filter has_fields cart)"
  using uniqueItems_spec[of "filter has_fields cart" "[]"]
  by (simp add: itemsWithCustomFields_def)

lemma first_per_original_id_subset: "set (first_per_original_id xs) \<subseteq> set xs"
proof (induction xs rule: first_per_original_id.induct)
  case 1
  show ?case by simp
next
  case (2 x xs)
  then show ?case by auto
qed

lemma first_per_original_id_distinct:
  "distinct (map (\<lambda>x. getOriginalMenuItemId (item_id x)) (first_per_original_id xs))"
proof (induction xs rule: first_per_original_id.induct)
  case 1
  show ?case by simp
next
  case (2 x xs)
  have "getOriginalMenuItemId (item_id x)
        \<notin> (\<lambda>y. getOriginalMenuItemId (item_id y)) `
            set (first_per_original_id
              (filter (\<lambda>y. getOriginalMenuItemId (item_id y) \<noteq> getOriginalMenuItemId (item_id x)) xs))"
    using first_per_original_id_subset[of
        "filter (\<lambda>y. getOriginalMenuItemId (item_id y) \<noteq> getOriginalMenuItemId (item_id x)) xs"]
    by auto
  with 2 show ?case by simp
qed


subsection \<open>The fan-out, step by step\<close>

lemma fold_max_Max:
  fixes xs :: "nat list"
  assumes "xs \<noteq> []"
  shows "fold max xs 0 = Max (set xs)"
proof -
  have "fold max xs 0 = Max (set (0 # xs))" by (simp only: Max.set_eq_fold)
  also have "\<dots> = max 0 (Max (set xs))" using assms by simp
  finally show ?thesis by simp
qed

lemma bulkInputFields_length:
  assumes "selectedItems cart selected \<noteq> []"
  shows "length (bulkInputFields cart selected)
         = Max (set (map field_count (selectedItems cart selected)))"
proof -
  have sel: "selected \<noteq> []" using assms by (auto simp: selectedItems_def)
  have m: "fold max (map field_count (selectedItems cart selected)) 0
           = Max (set (map field_count (selectedItems cart selected)))"
    using assms by (intro fold_max_Max) simp
  then have m': "fold max (map field_count (selectedItems cart selected)) 0
           = Max (field_count ` set (selectedItems cart selected))" by simp
  show ?thesis using assms sel
    by (simp add: bulkInputFields_def Let_def m')
qed

lemma findIndex_lower: "- 1 \<le> findIndex P xs"
  by (induction xs) (simp_all add: Let_def)

lemma findIndex_found: "\<exists>x \<in> set xs. P x \<Longrightarrow> findIndex P xs \<noteq> - 1"
proof (induction xs)
  case Nil
  then show ?case by simp
next
  case (Cons y ys)
  show ?case
  proof (cases "P y")
    case True
    then show ?thesis by simp
  next
    case False
    with Cons.prems have "\<exists>x \<in> set ys. P x" by simp
    then have "findIndex P ys \<noteq> - 1" by (rule Cons.IH)
    with findIndex_lower[of P ys] False show ?thesis by (simp add: Let_def)
  qed
qed


lemma item_write_at:
  assumes "item \<in> set (itemsWithCustomFields cart)"
    and "field_at item (Some (int i)) = Some f"
  shows "item_write cart (Some (int i)) v item
         = [(valueKey (getOriginalMenuItemId (item_id item)) i (field_key f), v)]"
proof -
  have "\<exists>x \<in> set (itemsWithCustomFields cart).
          getOriginalMenuItemId (item_id x) = getOriginalMenuItemId (item_id item)"
    using assms(1) by blast
  then have "findIndex (\<lambda>x. getOriginalMenuItemId (item_id x)
                             = getOriginalMenuItemId (item_id item))
               (itemsWithCustomFields cart) \<noteq> - 1"
    by (rule findIndex_found)
  then show ?thesis using assms(2) by (simp add: item_write_def Let_def)
qed




lemma bulk_writes_member:
  assumes "(k, v) \<in> set es" "item \<in> set (selectedItems cart selected)"
    and "w \<in> set (item_write cart (parseInt k) v item)"
  shows "w \<in> set (bulk_writes cart selected es)"
  using assms unfolding bulk_writes_def by (auto intro!: bexI[of _ "(k, v)"])

lemma bulk_writes_origin:
  assumes "w \<in> set (bulk_writes cart selected es)"
  shows "\<exists>k v item. (k, v) \<in> set es \<and> item \<in> set (selectedItems cart selected)
           \<and> w \<in> set (item_write cart (parseInt k) v item)"
  using assms unfolding bulk_writes_def by auto





lemma occurs_at_split:
  assumes "sep \<noteq> []" "occurs_at sep s n"
  shows "n < length s \<and> s = take n s @ sep @ drop (n + length sep) s"
proof -
  from assms have d: "drop n s \<noteq> []" unfolding occurs_at_def by auto
  then have n: "n < length s" by simp
  have "drop n s = take (length sep) (drop n s) @ drop (length sep) (drop n s)"
    by (simp only: append_take_drop_id)
  then have "drop n s = sep @ drop (n + length sep) s"
    using assms(2) unfolding occurs_at_def by (simp add: add.commute)
  then have "take n s @ drop n s = take n s @ sep @ drop (n + length sep) s" by simp
  with n show ?thesis by simp
qed

lemma split_occurs_at: "s = p @ sep @ q \<Longrightarrow> occurs_at sep s (length p)"
  by (simp add: occurs_at_def)

lemma absent_no_occurrence:
  assumes "absent sep s"
  shows "\<not> occurs_in sep s"
proof
  assume "occurs_in sep s"
  then obtain p q where s: "s = p @ sep @ q" unfolding occurs_in_def by blast
  then have "occurs_at sep s (length p)" by (rule split_occurs_at)
  moreover have "length p \<in> set [0..<Suc (length s)]" using s by simp
  ultimately show False using assms unfolding absent_def list_all_iff by blast
qed

lemma first_occurrence_least:
  assumes "sep \<noteq> []" "first_occurrence sep s n"
  shows "s = take n s @ sep @ drop (n + length sep) s
         \<and> (\<forall>p' q'. s = p' @ sep @ q' \<longrightarrow> length (take n s) \<le> length p')"
proof -
  from assms(2) have occ: "occurs_at sep s n"
    and least: "\<forall>m < n. \<not> occurs_at sep s m"
    unfolding first_occurrence_def list_all_iff by auto
  from occurs_at_split[OF assms(1) occ] have n: "n < length s"
    and s: "s = take n s @ sep @ drop (n + length sep) s" by blast+
  have "length (take n s) \<le> length p'" if "s = p' @ sep @ q'" for p' q'
  proof (rule ccontr)
    assume "\<not> length (take n s) \<le> length p'"
    then have "length p' < n" using n by simp
    with least have "\<not> occurs_at sep s (length p')" by blast
    with split_occurs_at[OF that] show False by blast
  qed
  with s show ?thesis by blast
qed

subsection \<open>Keys carry the original id\<close>

lemma selectedItems_spec:
  "selectedItems cart sel
   = filter (\<lambda>item. getOriginalMenuItemId (item_id item) \<in> set sel)
       (first_per_original_id (filter has_fields cart))"
  by (simp add: selectedItems_def itemsWithCustomFields_spec)

lemma handleFieldInput_key:
  "customFieldValues (handleFieldInput item i f v s)
   = (customFieldValues s)
       (getOriginalMenuItemId (item_id item) @ ''_'' @ show_nat i @ ''_'' @ field_key f \<mapsto> v)"
  by (simp add: handleFieldInput_def valueKey_def Let_def)

lemma list_all_enumerate:
  "list_all P (enumerate 0 fs) = (\<forall>i < length fs. P (i, fs ! i))"
proof
  assume h: "list_all P (enumerate 0 fs)"
  show "\<forall>i < length fs. P (i, fs ! i)"
  proof (intro allI impI)
    fix i assume "i < length fs"
    then have "(i, fs ! i) \<in> set (enumerate 0 fs)" by (simp add: in_set_enumerate_eq)
    with h show "P (i, fs ! i)" by (simp add: list_all_iff)
  qed
next
  assume h: "\<forall>i < length fs. P (i, fs ! i)"
  have "P p" if "p \<in> set (enumerate 0 fs)" for p
  proof -
    from that have "fst p < length fs" "snd p = fs ! fst p"
      by (simp_all add: in_set_enumerate_eq)
    with h have "P (fst p, snd p)" by simp
    then show ?thesis by simp
  qed
  then show "list_all P (enumerate 0 fs)" by (simp add: list_all_iff)
qed

lemma bex_enumerate:
  "(\<exists>p \<in> set (enumerate 0 fs). Q p) = (\<exists>i < length fs. Q (i, fs ! i))"
proof
  assume "\<exists>p \<in> set (enumerate 0 fs). Q p"
  then obtain p where p: "p \<in> set (enumerate 0 fs)" "Q p" by blast
  then have "fst p < length fs" "snd p = fs ! fst p" by (simp_all add: in_set_enumerate_eq)
  with p(2) have "fst p < length fs \<and> Q (fst p, fs ! fst p)" by (cases p) simp
  then show "\<exists>i < length fs. Q (i, fs ! i)" by blast
next
  assume "\<exists>i < length fs. Q (i, fs ! i)"
  then obtain i where i: "i < length fs" "Q (i, fs ! i)" by blast
  then have "(i, fs ! i) \<in> set (enumerate 0 fs)" by (simp add: in_set_enumerate_eq)
  with i(2) show "\<exists>p \<in> set (enumerate 0 fs). Q p" by blast
qed

lemma item_valid_keys:
  "(case customFields item of
      None \<Rightarrow> True
    | Some fs \<Rightarrow>
        let originalId = getOriginalMenuItemId (item_id item)
        in list_all (\<lambda>(fieldIndex, field).
             if \<not> required field then True
             else filled cfv (valueKey originalId fieldIndex (field_key field)))
           (enumerate 0 fs))
   = (\<forall>fs. customFields item = Some fs \<longrightarrow>
        (\<forall>i < length fs. required (fs ! i) \<longrightarrow>
           filled cfv (getOriginalMenuItemId (item_id item) @ ''_'' @ show_nat i @ ''_''
                       @ field_key (fs ! i))))"
  by (cases "customFields item") (auto simp: Let_def list_all_enumerate valueKey_def)

lemma isDetailsValid_keys:
  assumes "hasAnyCustomFields cart"
  shows "isDetailsValid cart cfv
         = (\<forall>item \<in> set (first_per_original_id (filter has_fields cart)).
              \<forall>fs. customFields item = Some fs \<longrightarrow>
                (\<forall>i < length fs. required (fs ! i) \<longrightarrow>
                   filled cfv (getOriginalMenuItemId (item_id item) @ ''_'' @ show_nat i @ ''_''
                               @ field_key (fs ! i))))"
proof -
  have "isDetailsValid cart cfv
        = list_all (\<lambda>item.
             case customFields item of
               None \<Rightarrow> True
             | Some fs \<Rightarrow>
                 let originalId = getOriginalMenuItemId (item_id item)
                 in list_all (\<lambda>(fieldIndex, field).
                      if \<not> required field then True
                      else filled cfv (valueKey originalId fieldIndex (field_key field)))
                    (enumerate 0 fs))
           (itemsWithCustomFields cart)"
    using assms by (simp only: isDetailsValid_def simp_thms if_False)
  then show ?thesis
    by (simp only: item_valid_keys itemsWithCustomFields_spec
        list_all_iff[of _ "first_per_original_id (filter has_fields cart)"])
qed

lemma item_write_key:
  assumes "(K, w) \<in> set (item_write cart fieldIndex v item)"
  shows "\<exists>j f. fieldIndex = Some j \<and> field_at item (Some j) = Some f \<and> w = v
          \<and> K = getOriginalMenuItemId (item_id item) @ ''_'' @ show_nat (nat j) @ ''_''
                 @ field_key f"
proof -
  from assms obtain f where f: "field_at item fieldIndex = Some f"
    by (cases "field_at item fieldIndex") (auto simp: item_write_def)
  then obtain j where j: "fieldIndex = Some j"
    by (cases fieldIndex) (auto simp: field_at_def split: option.splits)
  from assms f j have "w = v"
    and "K = valueKey (getOriginalMenuItemId (item_id item)) (nat j) (field_key f)"
    by (auto simp: item_write_def Let_def split: if_splits)
  with f j show ?thesis by (simp add: valueKey_def)
qed

lemma message_fields_keys:
  "((l, v) \<in> set (message_fields cfv item))
   = (\<exists>fs f. customFields item = Some fs \<and> f \<in> set fs \<and> l = field_label f \<and> v \<noteq> []
        \<and> cfv (getOriginalMenuItemId (item_id item) @ ''_'' @ field_key f) = Some v)"
proof (cases "customFields item")
  case None
  then show ?thesis by (simp add: message_fields_def)
next
  case (Some fs)
  have "((l, v) \<in> set (List.map_filter g fs)) = (\<exists>f \<in> set fs. g f = Some (l, v))" for g
    by (induction fs) (auto split: option.splits)
  then show ?thesis
    using Some
    by (auto simp: message_fields_def Let_def or_empty_def split: option.splits if_splits)
qed

lemma item_info_keys:
  "((l, v) \<in> set (item_info cfv item))
   = (\<exists>fs i. customFields item = Some fs \<and> i < length fs \<and> l = field_label (fs ! i)
        \<and> v \<noteq> []
        \<and> cfv (getOriginalMenuItemId (item_id item) @ ''_'' @ show_nat i @ ''_''
                @ field_key (fs ! i)) = Some v)"
proof (cases "customFields item")
  case None
  then show ?thesis by (simp add: item_info_def)
next
  case (Some fs)
  have "((l, v) \<in> set (item_info cfv item))
        = (\<exists>p \<in> set (enumerate 0 fs).
             truthy (cfv (valueKey (getOriginalMenuItemId (item_id item)) (fst p)
                            (field_key (snd p))))
             \<and> (l, v) = (field_label (snd p),
                          the (cfv (valueKey (getOriginalMenuItemId (item_id item)) (fst p)
                                     (field_key (snd p))))))"
    using Some by (auto simp: item_info_def Let_def case_prod_unfold split: if_splits)
  also have "\<dots> = (\<exists>i < length fs.
             truthy (cfv (valueKey (getOriginalMenuItemId (item_id item)) i (field_key (fs ! i))))
             \<and> (l, v) = (field_label (fs ! i),
                          the (cfv (valueKey (getOriginalMenuItemId (item_id item)) i
                                     (field_key (fs ! i))))))"
    by (simp only: bex_enumerate fst_conv snd_conv)
  also have "\<dots> = (\<exists>i < length fs. l = field_label (fs ! i) \<and> v \<noteq> []
             \<and> cfv (valueKey (getOriginalMenuItemId (item_id item)) i (field_key (fs ! i)))
                 = Some v)"
    by (auto simp: truthy_def split: option.splits)
  finally show ?thesis using Some by (simp add: valueKey_def)
qed

lemma bulk_writes_keys:
  "((K, w) \<in> set (bulk_writes cart sel es))
   = (\<exists>k j item f. (k, w) \<in> set es \<and> parseInt k = Some j
        \<and> item \<in> set (first_per_original_id (filter has_fields cart))
        \<and> getOriginalMenuItemId (item_id item) \<in> set sel
        \<and> field_at item (Some j) = Some f
        \<and> K = getOriginalMenuItemId (item_id item) @ ''_'' @ show_nat (nat j) @ ''_''
               @ field_key f)"
proof
  assume "(K, w) \<in> set (bulk_writes cart sel es)"
  from bulk_writes_origin[OF this] obtain k v item where
    e: "(k, v) \<in> set es" and it: "item \<in> set (selectedItems cart sel)"
    and wr: "(K, w) \<in> set (item_write cart (parseInt k) v item)" by blast
  from item_write_key[OF wr] obtain j f where
    "parseInt k = Some j" "field_at item (Some j) = Some f" "w = v"
    "K = getOriginalMenuItemId (item_id item) @ ''_'' @ show_nat (nat j) @ ''_'' @ field_key f"
    by blast
  moreover from it have "item \<in> set (first_per_original_id (filter has_fields cart))"
    "getOriginalMenuItemId (item_id item) \<in> set sel"
    by (simp_all add: selectedItems_spec)
  ultimately show "\<exists>k j item f. (k, w) \<in> set es \<and> parseInt k = Some j
        \<and> item \<in> set (first_per_original_id (filter has_fields cart))
        \<and> getOriginalMenuItemId (item_id item) \<in> set sel
        \<and> field_at item (Some j) = Some f
        \<and> K = getOriginalMenuItemId (item_id item) @ ''_'' @ show_nat (nat j) @ ''_''
               @ field_key f"
    using e by blast
next
  assume "\<exists>k j item f. (k, w) \<in> set es \<and> parseInt k = Some j
        \<and> item \<in> set (first_per_original_id (filter has_fields cart))
        \<and> getOriginalMenuItemId (item_id item) \<in> set sel
        \<and> field_at item (Some j) = Some f
        \<and> K = getOriginalMenuItemId (item_id item) @ ''_'' @ show_nat (nat j) @ ''_''
               @ field_key f"
  then obtain k j item f where e: "(k, w) \<in> set es" and j: "parseInt k = Some j"
    and it: "item \<in> set (first_per_original_id (filter has_fields cart))"
    and sel: "getOriginalMenuItemId (item_id item) \<in> set sel"
    and f: "field_at item (Some j) = Some f"
    and K: "K = getOriginalMenuItemId (item_id item) @ ''_'' @ show_nat (nat j) @ ''_''
               @ field_key f" by blast
  from f have j0: "0 \<le> j" by (auto simp: field_at_def split: option.splits if_splits)
  then have jn: "j = int (nat j)" by simp
  have items: "item \<in> set (itemsWithCustomFields cart)"
    using it by (simp add: itemsWithCustomFields_spec)
  have selected: "item \<in> set (selectedItems cart sel)"
    using it sel by (simp add: selectedItems_spec)
  from f jn have "field_at item (Some (int (nat j))) = Some f" by simp
  from item_write_at[OF items this, of w] jn j
  have "(K, w) \<in> set (item_write cart (parseInt k) w item)"
    by (simp add: K valueKey_def)
  from bulk_writes_member[OF e selected this]
  show "(K, w) \<in> set (bulk_writes cart sel es)" .
qed

text \<open>
  Claim C10. The original menu item id is the part of the cart item id before the first
  \<open>:::CART:::\<close>, and the whole id when the separator is absent. Grouping: the items asking
  for fields are the first item of every original id, no two of them with one original
  id. Bulk selection: ticking an item stores its original id, and the selected items are
  those whose original id is stored. Keying: the inputs, the validation, the fan-out and
  the payload address a field by original id, position and field key, the composer by
  original id and field key. And all of these give the same result on a cart whose items
  carry their original ids in place of the cart ids.
\<close>

theorem original_id_extraction:
  "(absent CART_SEP cartItemId \<longrightarrow> getOriginalMenuItemId cartItemId = cartItemId)
   \<and> (first_occurrence CART_SEP cartItemId n \<longrightarrow>
        getOriginalMenuItemId cartItemId = take n cartItemId)
   \<and> itemsWithCustomFields cart = first_per_original_id (filter has_fields cart)
   \<and> distinct (map (\<lambda>x. getOriginalMenuItemId (item_id x)) (itemsWithCustomFields cart))
   \<and> selectedItems cart sel
       = filter (\<lambda>x. getOriginalMenuItemId (item_id x) \<in> set sel)
           (first_per_original_id (filter has_fields cart))
   \<and> bulkSelectedGames (handleBulkGameSelectionChange cartItemId True s)
       = bulkSelectedGames s @ [getOriginalMenuItemId cartItemId]
   \<and> bulkSelectedGames (handleBulkGameSelectionChange cartItemId False s)
       = filter (\<lambda>i. i \<noteq> getOriginalMenuItemId cartItemId) (bulkSelectedGames s)
   \<and> customFieldValues (handleFieldInput item i f v s)
       = (customFieldValues s)
           (getOriginalMenuItemId (item_id item) @ ''_'' @ show_nat i @ ''_'' @ field_key f \<mapsto> v)
   \<and> (hasAnyCustomFields cart \<longrightarrow>
        isDetailsValid cart cfv
        = (\<forall>x \<in> set (first_per_original_id (filter has_fields cart)).
             \<forall>fs. customFields x = Some fs \<longrightarrow>
               (\<forall>i < length fs. required (fs ! i) \<longrightarrow>
                  filled cfv (getOriginalMenuItemId (item_id x) @ ''_'' @ show_nat i @ ''_''
                              @ field_key (fs ! i)))))
   \<and> ((K, w) \<in> set (bulk_writes cart sel es))
       = (\<exists>k j x fld. (k, w) \<in> set es \<and> parseInt k = Some j
            \<and> x \<in> set (first_per_original_id (filter has_fields cart))
            \<and> getOriginalMenuItemId (item_id x) \<in> set sel
            \<and> field_at x (Some j) = Some fld
            \<and> K = getOriginalMenuItemId (item_id x) @ ''_'' @ show_nat (nat j) @ ''_''
                   @ field_key fld)
   \<and> ((l, w) \<in> set (item_info cfv item))
       = (\<exists>fs i. customFields item = Some fs \<and> i < length fs \<and> l = field_label (fs ! i)
            \<and> w \<noteq> []
            \<and> cfv (getOriginalMenuItemId (item_id item) @ ''_'' @ show_nat i @ ''_''
                    @ field_key (fs ! i)) = Some w)
   \<and> ((l, w) \<in> set (message_fields cfv item))
       = (\<exists>fs fld. customFields item = Some fs \<and> fld \<in> set fs \<and> l = field_label fld
            \<and> w \<noteq> []
            \<and> cfv (getOriginalMenuItemId (item_id item) @ ''_'' @ field_key fld) = Some w)
   \<and> itemsWithCustomFields (map with_original_id cart)
       = map with_original_id (itemsWithCustomFields cart)
   \<and> selectedItems (map with_original_id cart) sel
       = map with_original_id (selectedItems cart sel)
   \<and> bulkInputFields (map with_original_id cart) sel = bulkInputFields cart sel
   \<and> bulk_writes (map with_original_id cart) sel es = bulk_writes cart sel es
   \<and> isDetailsValid (map with_original_id cart) cfv = isDetailsValid cart cfv
   \<and> customFieldsSection cfv (map with_original_id cart) = customFieldsSection cfv cart
   \<and> customerInfo (map with_original_id cart) cfv m = customerInfo cart cfv m
   \<and> handleFieldInput (with_original_id item) i f v s = handleFieldInput item i f v s
   \<and> handleBulkGameSelectionChange (getOriginalMenuItemId cartItemId) checked s
       = handleBulkGameSelectionChange cartItemId checked s"
proof -
  have a: "absent CART_SEP cartItemId \<longrightarrow> getOriginalMenuItemId cartItemId = cartItemId"
    using absent_no_occurrence getOriginalMenuItemId_absent by blast
  have b: "first_occurrence CART_SEP cartItemId n \<longrightarrow>
        getOriginalMenuItemId cartItemId = take n cartItemId"
  proof
    assume "first_occurrence CART_SEP cartItemId n"
    from first_occurrence_least[OF CART_SEP_nonempty this]
    show "getOriginalMenuItemId cartItemId = take n cartItemId"
      using getOriginalMenuItemId_first by blast
  qed
  have c: "distinct (map (\<lambda>x. getOriginalMenuItemId (item_id x)) (itemsWithCustomFields cart))"
    by (simp only: itemsWithCustomFields_spec first_per_original_id_distinct)
  have d: "bulkSelectedGames (handleBulkGameSelectionChange cartItemId True s)
       = bulkSelectedGames s @ [getOriginalMenuItemId cartItemId]"
    "bulkSelectedGames (handleBulkGameSelectionChange cartItemId False s)
       = filter (\<lambda>i. i \<noteq> getOriginalMenuItemId cartItemId) (bulkSelectedGames s)"
    by (simp_all add: handleBulkGameSelectionChange_def)
  have e: "hasAnyCustomFields cart \<longrightarrow>
        isDetailsValid cart cfv
        = (\<forall>x \<in> set (first_per_original_id (filter has_fields cart)).
             \<forall>fs. customFields x = Some fs \<longrightarrow>
               (\<forall>i < length fs. required (fs ! i) \<longrightarrow>
                  filled cfv (getOriginalMenuItemId (item_id x) @ ''_'' @ show_nat i @ ''_''
                              @ field_key (fs ! i))))"
    using isDetailsValid_keys by blast
  have g: "handleFieldInput (with_original_id item) i f v s = handleFieldInput item i f v s"
    by (simp add: handleFieldInput_def)
  have h: "handleBulkGameSelectionChange (getOriginalMenuItemId cartItemId) checked s
       = handleBulkGameSelectionChange cartItemId checked s"
    by (simp add: handleBulkGameSelectionChange_def getOriginalMenuItemId_idem)
  show ?thesis
    by (intro conjI)
       (rule a b itemsWithCustomFields_spec c selectedItems_spec d handleFieldInput_key e
          bulk_writes_keys item_info_keys message_fields_keys itemsWithCustomFields_woi
          selectedItems_woi bulkInputFields_woi bulk_writes_woi isDetailsValid_woi
          customFieldsSection_woi customerInfo_woi g h)+
qed

theorem original_id_extraction_witness:
  "absent CART_SEP ''plain-menu-id''
   \<and> getOriginalMenuItemId ''plain-menu-id'' = ''plain-menu-id''
   \<and> first_occurrence CART_SEP ''a:::::CART:::17-k3:::CART:::x'' 3
   \<and> getOriginalMenuItemId ''a:::::CART:::17-k3:::CART:::x'' = ''a::''
   \<and> getOriginalMenuItemId (item_id item_A) = getOriginalMenuItemId (item_id item_A2)
   \<and> itemsWithCustomFields dup_cart = [item_A, item_B]
   \<and> hasAnyCustomFields dup_cart
   \<and> isDetailsValid dup_cart (customFieldValues typed_AB)
   \<and> \<not> isDetailsValid dup_cart [''a:::CART:::1700000000-k3_0_ign'' \<mapsto> ''X'', ''b_0_ign'' \<mapsto> ''X'']"
proof -
  have h1: "absent CART_SEP ''plain-menu-id''" by code_simp
  have h2: "first_occurrence CART_SEP ''a:::::CART:::17-k3:::CART:::x'' 3" by code_simp
  have h3: "hasAnyCustomFields dup_cart" by code_simp
  have same: "getOriginalMenuItemId (item_id item_A) = getOriginalMenuItemId (item_id item_A2)"
    by code_simp
  note T = original_id_extraction[where cart = dup_cart]
  from original_id_extraction[of "''plain-menu-id''"] h1
  have a: "getOriginalMenuItemId ''plain-menu-id'' = ''plain-menu-id''" by blast
  from original_id_extraction[of "''a:::::CART:::17-k3:::CART:::x''" 3] h2
  have "getOriginalMenuItemId ''a:::::CART:::17-k3:::CART:::x''
        = take 3 ''a:::::CART:::17-k3:::CART:::x''" by blast
  then have b: "getOriginalMenuItemId ''a:::::CART:::17-k3:::CART:::x'' = ''a::''" by simp
  have firsts: "first_per_original_id (filter has_fields dup_cart) = [item_A, item_B]"
    by code_simp
  from T have "itemsWithCustomFields dup_cart
               = first_per_original_id (filter has_fields dup_cart)" by blast
  with firsts have c: "itemsWithCustomFields dup_cart = [item_A, item_B]" by simp
  have fa: "filled (customFieldValues typed_AB)
              (getOriginalMenuItemId (item_id item_A) @ ''_'' @ show_nat 0 @ ''_''
               @ field_key field_ign)" by code_simp
  have fb: "filled (customFieldValues typed_AB)
              (getOriginalMenuItemId (item_id item_B) @ ''_'' @ show_nat 0 @ ''_''
               @ field_key field_ign)" by code_simp
  have ca: "customFields item_A = Some [field_ign]" by (simp add: item_A_def)
  have cb: "customFields item_B = Some [field_ign]" by (simp add: item_B_def)
  have valid: "(\<forall>x \<in> set (first_per_original_id (filter has_fields dup_cart)).
             \<forall>fs. customFields x = Some fs \<longrightarrow>
               (\<forall>i < length fs. required (fs ! i) \<longrightarrow>
                  filled (customFieldValues typed_AB)
                    (getOriginalMenuItemId (item_id x) @ ''_'' @ show_nat i @ ''_''
                     @ field_key (fs ! i))))"
    using fa fb by (simp add: firsts ca cb)
  from T[where cfv = "customFieldValues typed_AB"] h3 valid
  have d: "isDetailsValid dup_cart (customFieldValues typed_AB)" by blast
  have e: "\<not> isDetailsValid dup_cart [''a:::CART:::1700000000-k3_0_ign'' \<mapsto> ''X'', ''b_0_ign'' \<mapsto> ''X'']"
    by code_simp
  from h1 a h2 b same c h3 d e show ?thesis by blast
qed

subsection \<open>Storage\<close>

lemma persist_string_Items:
  "persist_string k v (Items m) = Inr (Items (m(k := if truthy v then v else None)))"
  by (cases v) (simp_all add: persist_string_def setItem_def removeItem_def truthy_def)

lemma persist_Items:
  "persist J s (Items m) = Inr (Items
     ((((((m(KEY_customFieldValues \<mapsto> stringify_values J (customFieldValues s)))
        (KEY_receiptImageUrl := if truthy (receiptImageUrl s) then receiptImageUrl s else None))
        (KEY_receiptPreview := if truthy (receiptPreview s) then receiptPreview s else None))
        (KEY_bulkInputValues \<mapsto> stringify_entries J (bulkInputValues s)))
        (KEY_bulkSelectedGames \<mapsto> stringify_ids J (bulkSelectedGames s)))
        (KEY_paymentMethodUuid := if truthy (paymentMethodUuid s) then paymentMethodUuid s else None)))"
  by (simp only: persist_def persist_string_Items setItem_def bind_err_def
      localStorage.case sum.case)

lemmas KEY_defs = KEY_paymentMethodUuid_def KEY_customFieldValues_def KEY_receiptImageUrl_def
  KEY_receiptPreview_def KEY_bulkInputValues_def KEY_bulkSelectedGames_def
  KEY_current_order_id_def

text \<open>The four initialisers written with \<^verbatim>\<open>try/catch\<close> never throw, and fall back to
  their default when the store is blocked, the key is absent or empty, or the parse
  throws.\<close>

lemma init_paymentMethodUuid_guarded:
  "init_paymentMethodUuid st
   = Inr (case st of Blocked \<Rightarrow> None | Items m \<Rightarrow> m KEY_paymentMethodUuid)"
  by (simp add: init_paymentMethodUuid_def getItem_def split: localStorage.splits)

lemma init_parsed_guarded: "\<exists>v. init_parsed parse dflt st k = Inr v"
  by (auto simp: init_parsed_def split: sum.splits)

lemma init_parsed_default:
  assumes "st = Blocked \<or> (\<exists>m. st = Items m \<and>
             (m k = None \<or> m k = Some [] \<or> (\<exists>t e. m k = Some t \<and> parse t = Inl e)))"
  shows "init_parsed parse dflt st k = Inr dflt"
  using assms by (auto simp: init_parsed_def getItem_def truthy_def split: sum.splits)

text \<open>
  Claim C4. Every initialiser is to give its default, and throw nothing, when the store
  cannot be read. On a blocked store the four guarded initialisers do; the initialisers
  of \<open>receiptImageUrl\<close> and \<open>receiptPreview\<close> call \<^verbatim>\<open>localStorage.getItem\<close> with no
  \<^verbatim>\<open>try\<close> around it, so the \<^verbatim>\<open>SecurityError\<close> leaves them and the first render.
\<close>

theorem receipt_initialisers_throw:
  "init_receiptImageUrl Blocked = Inl SecurityError
   \<and> init_receiptPreview Blocked = Inl SecurityError
   \<and> initial_state J Blocked = Inl SecurityError
   \<and> init_paymentMethodUuid Blocked = Inr None
   \<and> init_customFieldValues J Blocked = Inr Map.empty
   \<and> init_bulkInputValues J Blocked = Inr []
   \<and> init_bulkSelectedGames J Blocked = Inr []"
  by (simp add: init_receiptImageUrl_def init_receiptPreview_def initial_state_def
      init_paymentMethodUuid_def init_customFieldValues_def init_bulkInputValues_def
      init_bulkSelectedGames_def init_parsed_def getItem_def bind_err_def)

subsection \<open>Receipt removal\<close>

text \<open>
  Claim C9. Removing the receipt clears the pending file, the receipt reference, the
  preview, the receipt error and the "message copied" flag in one step, and leaves every
  other field of the state as it was; once the persistence effects have run on a
  readable store, the store holds neither the reference nor the preview.
\<close>

theorem handleReceiptRemove_frame:
  "receiptFile (handleReceiptRemove s) = None
   \<and> receiptImageUrl (handleReceiptRemove s) = None
   \<and> receiptPreview (handleReceiptRemove s) = None
   \<and> receiptError (handleReceiptRemove s) = None
   \<and> hasCopiedMessage (handleReceiptRemove s) = False
   \<and> paymentMethodUuid (handleReceiptRemove s) = paymentMethodUuid s
   \<and> showPaymentDetailsModal (handleReceiptRemove s) = showPaymentDetailsModal s
   \<and> customFieldValues (handleReceiptRemove s) = customFieldValues s
   \<and> copied (handleReceiptRemove s) = copied s
   \<and> copiedAccountNumber (handleReceiptRemove s) = copiedAccountNumber s
   \<and> copiedAccountName (handleReceiptRemove s) = copiedAccountName s
   \<and> bulkInputValues (handleReceiptRemove s) = bulkInputValues s
   \<and> bulkSelectedGames (handleReceiptRemove s) = bulkSelectedGames s
   \<and> orderId (handleReceiptRemove s) = orderId s
   \<and> isOrderModalOpen (handleReceiptRemove s) = isOrderModalOpen s
   \<and> isPlacingOrder (handleReceiptRemove s) = isPlacingOrder s
   \<and> existingOrderStatus (handleReceiptRemove s) = existingOrderStatus s
   \<and> isCheckingExistingOrder (handleReceiptRemove s) = isCheckingExistingOrder s
   \<and> bind_err (persist J (handleReceiptRemove s) (Items m))
        (\<lambda>st. getItem st KEY_receiptImageUrl) = Inr None
   \<and> bind_err (persist J (handleReceiptRemove s) (Items m))
        (\<lambda>st. getItem st KEY_receiptPreview) = Inr None"
proof -
  have state: "handleReceiptRemove s =
       s\<lparr>receiptFile := None, receiptImageUrl := None, receiptPreview := None,
         receiptError := None, hasCopiedMessage := False\<rparr>"
    by (simp add: handleReceiptRemove_def)
  have store: "bind_err (persist J (handleReceiptRemove s) (Items m))
        (\<lambda>st. getItem st KEY_receiptImageUrl) = Inr None"
     "bind_err (persist J (handleReceiptRemove s) (Items m))
        (\<lambda>st. getItem st KEY_receiptPreview) = Inr None"
    by (simp_all add: persist_Items state bind_err_def getItem_def truthy_def KEY_defs)
  show ?thesis using store by (simp add: state)
qed

subsection \<open>Submission\<close>

text \<open>
  With no payment method id or no receipt reference in the state, both handlers set the
  receipt error to one of the two messages and return: no link is opened, no order is
  created, the store and every other field of the state are unchanged.
\<close>

lemma handlers_reject_unset:
  assumes "\<not> truthy (paymentMethodUuid s) \<or> \<not> truthy (receiptImageUrl s)"
  shows "\<exists>msg. (msg = MSG_select_payment \<or> msg = MSG_upload_receipt)
     \<and> handlePlaceOrder enc cartItems orderTotal paymentMethods s
         = (s\<lparr>receiptError := Some msg\<rparr>, [])
     \<and> handlePlaceOrderDirect createOrder cartItems orderTotal paymentMethods (s, st)
         = (s\<lparr>receiptError := Some msg\<rparr>, st, [])"
  using assms by (auto simp: handlePlaceOrder_def handlePlaceOrderDirect_def)

text \<open>
  Claim C7. The two submission modes do not share the precondition. The state holds the
  payment method id \<open>u9\<close>, which names none of the listed methods, and a receipt
  reference: no payment method is selected. The direct mode rejects the submission with
  the payment method message and does nothing else; the messenger mode opens the deep
  link, with the order message composed for that state, and sets no error.
\<close>

theorem messenger_mode_skips_method_check:
  "truthy (paymentMethodUuid stale_state)
   \<and> truthy (receiptImageUrl stale_state)
   \<and> selectedPaymentMethod [method_gcash] (paymentMethodUuid stale_state) = None
   \<and> handlePlaceOrderDirect createOrder cartItems orderTotal [method_gcash] (stale_state, st)
      = (stale_state\<lparr>receiptError := Some MSG_select_payment\<rparr>, st, [])
   \<and> handlePlaceOrder enc cartItems orderTotal [method_gcash] stale_state
      = (stale_state,
         [WindowOpen (''https://m.me/779999235186541?text=''
                      @ enc (generateOrderMessage cartItems orderTotal [method_gcash] stale_state))])"
  by (simp add: handlePlaceOrder_def handlePlaceOrderDirect_def selectedPaymentMethod_def
      stale_state_def paid_state_def fresh_state_def method_gcash_def truthy_def Let_def)

subsection \<open>An order in flight\<close>

text \<open>
  Claim C6. On mount with a stored order id: an order fetched as approved clears the
  stored id, the order id and the status of the state; an order fetched as rejected
  keeps the stored id and leaves the status and the order id set; a fetch that finds no
  order clears the stored id.
\<close>

theorem existing_order_on_mount:
  assumes "m KEY_current_order_id = Some oid" and "oid \<noteq> []"
  shows "(fetchOrderById oid = Some order \<and> order_status order = ''approved'' \<longrightarrow>
            checkExistingOrder fetchOrderById (s, Items m)
            = Inr (s\<lparr>existingOrderStatus := None, orderId := None,
                     isCheckingExistingOrder := False\<rparr>,
                   Items (m(KEY_current_order_id := None))))
       \<and> (fetchOrderById oid = Some order \<and> order_status order = ''rejected'' \<longrightarrow>
            checkExistingOrder fetchOrderById (s, Items m)
            = Inr (s\<lparr>existingOrderStatus := Some ''rejected'', orderId := Some (order_id order),
                     isCheckingExistingOrder := False\<rparr>,
                   Items m))
       \<and> (fetchOrderById oid = None \<longrightarrow>
            checkExistingOrder fetchOrderById (s, Items m)
            = Inr (s\<lparr>isCheckingExistingOrder := False\<rparr>,
                   Items (m(KEY_current_order_id := None))))"
  using assms
  by (simp add: checkExistingOrder_def getItem_def removeItem_def bind_err_def truthy_def)

theorem existing_order_on_mount_witness:
  "stored_order KEY_current_order_id = Some ''o1'' \<and> ''o1'' \<noteq> ([]::string)
   \<and> checkExistingOrder (\<lambda>i. Some \<lparr> order_id = ''o1'', order_status = ''approved'' \<rparr>)
        (fresh_state, Items stored_order)
      = Inr (fresh_state\<lparr>existingOrderStatus := None, orderId := None,
               isCheckingExistingOrder := False\<rparr>,
             Items (stored_order(KEY_current_order_id := None)))
   \<and> checkExistingOrder (\<lambda>i. Some \<lparr> order_id = ''o1'', order_status = ''rejected'' \<rparr>)
        (fresh_state, Items stored_order)
      = Inr (fresh_state\<lparr>existingOrderStatus := Some ''rejected'', orderId := Some ''o1'',
               isCheckingExistingOrder := False\<rparr>,
             Items stored_order)
   \<and> checkExistingOrder (\<lambda>i. None) (fresh_state, Items stored_order)
      = Inr (fresh_state\<lparr>isCheckingExistingOrder := False\<rparr>,
             Items (stored_order(KEY_current_order_id := None)))"
proof -
  have h1: "stored_order KEY_current_order_id = Some ''o1''"
    by (simp add: stored_order_def)
  have h2: "''o1'' \<noteq> ([]::string)" by simp
  note T = existing_order_on_mount[where m = stored_order and oid = "''o1''"
      and s = fresh_state, OF h1 h2]
  have a: "checkExistingOrder (\<lambda>i. Some \<lparr> order_id = ''o1'', order_status = ''approved'' \<rparr>)
        (fresh_state, Items stored_order)
      = Inr (fresh_state\<lparr>existingOrderStatus := None, orderId := None,
               isCheckingExistingOrder := False\<rparr>,
             Items (stored_order(KEY_current_order_id := None)))"
    using T[where fetchOrderById = "\<lambda>i. Some \<lparr> order_id = ''o1'', order_status = ''approved'' \<rparr>"
        and order = "\<lparr> order_id = ''o1'', order_status = ''approved'' \<rparr>"]
    by simp
  have b: "checkExistingOrder (\<lambda>i. Some \<lparr> order_id = ''o1'', order_status = ''rejected'' \<rparr>)
        (fresh_state, Items stored_order)
      = Inr (fresh_state\<lparr>existingOrderStatus := Some ''rejected'', orderId := Some ''o1'',
               isCheckingExistingOrder := False\<rparr>,
             Items stored_order)"
    using T[where fetchOrderById = "\<lambda>i. Some \<lparr> order_id = ''o1'', order_status = ''rejected'' \<rparr>"
        and order = "\<lparr> order_id = ''o1'', order_status = ''rejected'' \<rparr>"]
    by simp
  have c: "checkExistingOrder (\<lambda>i. None) (fresh_state, Items stored_order)
      = Inr (fresh_state\<lparr>isCheckingExistingOrder := False\<rparr>,
             Items (stored_order(KEY_current_order_id := None)))"
    using T[where fetchOrderById = "\<lambda>i. None"] by simp
  from h1 h2 a b c show ?thesis by blast
qed

subsection \<open>Validation and submission\<close>

lemma create_order_sent:
  assumes "paymentMethodUuid s = Some ''u1''" "receiptImageUrl s = Some (r # rs)"
  shows "list_ex is_CreateOrder
           (snd (snd (handlePlaceOrderDirect createOrder cart n [method_gcash] (s, st))))"
proof -
  have sel: "selectedPaymentMethod [method_gcash] (Some ''u1'') = Some method_gcash"
    by (simp add: selectedPaymentMethod_def method_gcash_def)
  show ?thesis using assms
    by (simp add: handlePlaceOrderDirect_def truthy_def sel Let_def setItem_def
        split: sum.splits option.splits localStorage.splits)
qed

text \<open>
  Claim C1. Placing an order is to send nothing to the backend while a required field, or
  the fallback name when no item has fields, is blank. \<open>isDetailsValid\<close> computes that
  condition, but neither \<open>handlePlaceOrderDirect\<close> nor the button that calls it reads
  it: with a payment method and a receipt, the order is sent, for a cart without fields
  and no name given, and for a cart whose required IGN holds two spaces.
\<close>

theorem order_sent_with_blank_required_field:
  "\<not> isDetailsValid [item_plain] (customFieldValues paid_state)
   \<and> list_ex is_CreateOrder (snd (snd (handlePlaceOrderDirect createOrder [item_plain] 100
         [method_gcash] (paid_state, st))))
   \<and> \<not> isDetailsValid [item_A]
         (customFieldValues (handleFieldInput item_A 0 field_ign ''  '' paid_state))
   \<and> list_ex is_CreateOrder (snd (snd (handlePlaceOrderDirect createOrder [item_A] 50
         [method_gcash] (handleFieldInput item_A 0 field_ign ''  '' paid_state, st))))"
proof -
  have v1: "\<not> isDetailsValid [item_plain] (customFieldValues paid_state)"
    by code_simp
  have v2: "\<not> isDetailsValid [item_A]
         (customFieldValues (handleFieldInput item_A 0 field_ign ''  '' paid_state))"
    by code_simp
  have c1: "list_ex is_CreateOrder (snd (snd (handlePlaceOrderDirect createOrder [item_plain] 100
         [method_gcash] (paid_state, st))))"
    by (rule create_order_sent) (simp_all add: paid_state_def)
  have c2: "list_ex is_CreateOrder (snd (snd (handlePlaceOrderDirect createOrder [item_A] 50
         [method_gcash] (handleFieldInput item_A 0 field_ign ''  '' paid_state, st))))"
    by (rule create_order_sent) (simp_all add: paid_state_def handleFieldInput_def Let_def)
  from v1 v2 c1 c2 show ?thesis by blast
qed

subsection \<open>The composer's key\<close>

text \<open>
  Claim C2. Items \<open>A\<close> and \<open>B\<close> both answer IGN with \<open>X\<close>, typed into their inputs;
  the message is to hold the block \<open>A\<close>, \<open>B\<close>, \<open>IGN: X\<close> once. The inputs store the
  answers under \<open>a_0_ign\<close> and \<open>b_0_ign\<close>; the composer looks under \<open>a_ign\<close> and
  \<open>b_ign\<close>, finds nothing, and leaves the fields section empty. Were the answers stored
  under the composer's keys, the section would be that one block.
\<close>

theorem shared_answers_missing_from_message:
  "customFieldValues typed_AB ''a_0_ign'' = Some ''X''
   \<and> customFieldValues typed_AB ''b_0_ign'' = Some ''X''
   \<and> isDetailsValid [item_A, item_B] (customFieldValues typed_AB)
   \<and> customFieldsSection (customFieldValues typed_AB) [item_A, item_B] = []
   \<and> \<not> includes_str (generateOrderMessage [item_A, item_B] 150 [method_gcash] typed_AB)
         (''A'' @ NL @ ''B'' @ NL @ ''IGN: X'')
   \<and> customFieldsSection [''a_ign'' \<mapsto> ''X'', ''b_ign'' \<mapsto> ''X''] [item_A, item_B]
       = ''A'' @ NL @ ''B'' @ NL @ ''IGN: X''"
  by code_simp

text \<open>
  Claim C3. Every reader and writer of the field value map is to address a field by
  original id, position and field key. The form inputs, the fan-out, the validation and
  the order payload do (\<open>valueKey\<close>); the composer leaves the position out. Item \<open>D\<close> has
  two fields with the key \<open>id\<close>: the payload reports the two typed answers, the composer
  reads neither, and reads one and the same entry \<open>d_id\<close> for both fields.
\<close>

theorem composer_key_lacks_position:
  "customFieldValues typed_two (valueKey ''d'' 0 ''id'') = Some ''111''
   \<and> customFieldValues typed_two (valueKey ''d'' 1 ''id'') = Some ''222''
   \<and> isDetailsValid [item_two] (customFieldValues typed_two)
   \<and> item_info (customFieldValues typed_two) item_two
       = [(''User ID'', ''111''), (''Zone ID'', ''222'')]
   \<and> message_fields (customFieldValues typed_two) item_two = []
   \<and> message_fields [''d_id'' \<mapsto> ''999''] item_two
       = [(''User ID'', ''999''), (''Zone ID'', ''999'')]"
  by code_simp

subsection \<open>Grouping by answers\<close>

text \<open>
  The grouping itself: when every item with fields gives the composer the same non-empty
  list of answers, there is one group, with the names of all those items in cart order.
\<close>

lemma add_game_joins:
  assumes "message_fields cfv item = F" "F \<noteq> []"
  shows "add_game cfv item [(group_key F, names, F)]
         = [(group_key F, names @ [item_name item], F)]"
  using assms by (simp add: add_game_def push_game_def Let_def)

lemma add_game_opens:
  assumes "message_fields cfv item = F" "F \<noteq> []"
  shows "add_game cfv item []
         = [(group_key F, [item_name item], F)]"
  using assms by (simp add: add_game_def push_game_def Let_def)

lemma fold_add_game_joins:
  assumes "\<forall>item \<in> set items. message_fields cfv item = F" "F \<noteq> []"
  shows "fold (add_game cfv) items
           [(group_key F, names, F)]
         = [(group_key F, names @ map item_name items, F)]"
  using assms
proof (induction items arbitrary: names)
  case Nil
  show ?case by simp
next
  case (Cons x xs)
  from Cons.prems have x: "message_fields cfv x = F" by simp
  from Cons.prems have xs: "\<forall>item \<in> set xs. message_fields cfv item = F" by simp
  show ?case
    using Cons.IH[OF xs Cons.prems(2), of "names @ [item_name x]"]
    by (simp add: add_game_joins[OF x Cons.prems(2)])
qed

lemma identical_answers_one_group:
  assumes "\<forall>item \<in> set (itemsWithCustomFields cart). message_fields cfv item = F"
    and "F \<noteq> []" and "hasAnyCustomFields cart"
  shows "gamesByFieldValues cfv cart
         = [(group_key F,
             map item_name (itemsWithCustomFields cart), F)]"
proof -
  from assms(3) obtain x xs where items: "itemsWithCustomFields cart = x # xs"
    by (cases "itemsWithCustomFields cart") (simp_all add: hasAnyCustomFields_def)
  from assms(1) items have x: "message_fields cfv x = F"
    and xs: "\<forall>item \<in> set xs. message_fields cfv item = F" by simp_all
  show ?thesis
    using fold_add_game_joins[OF xs assms(2), of "[item_name x]"]
    by (simp add: gamesByFieldValues_def items add_game_opens[OF x assms(2)])
qed

subsection \<open>Reload\<close>














subsection \<open>Bulk input\<close>










end
